theory Spec2Isabelle
  imports Main
begin

section \<open>The metric-view refresh script\<close>

text \<open>
  A shallow embedding of \<^verbatim>\<open>scripts/refresh_metric_views.py\<close>. The script looks up the
  pipeline behind a metric view (\<^verbatim>\<open>discover_pipeline\<close>), resolves the SQL warehouse
  the lookup runs on (\<^verbatim>\<open>_get_warehouse_id\<close>), starts pipeline updates
  (\<^verbatim>\<open>refresh_pipelines\<close>) and dispatches on the command line (\<^verbatim>\<open>main\<close>).

  Everything the script does besides computing values is explicit here: the remote
  workspace is a state of type \<open>'w\<close> that each SDK call reads and changes, standard output
  and the SDK calls made are recorded in order in a trace, an exception is the left
  summand of a result, and \<^verbatim>\<open>sys.exit\<close> and an exception nobody catches end the
  process with an \<open>abort\<close>.
\<close>

subsection \<open>Text: substring test and the two regular expressions\<close>

text \<open>
  Python text is modelled as \<open>string\<close>. Both patterns of the script have the shape
  \<^verbatim>\<open>literal([class]+)\<close>; \<^verbatim>\<open>re.search\<close> returns the leftmost position where
  the literal is followed by at least one character of the class, and the group is the
  longest run of class characters there (the \<^verbatim>\<open>+\<close> is greedy and nothing follows it).
\<close>

definition is_hex :: "char \<Rightarrow> bool" where
  "is_hex c = (c \<in> set ''abcdef0123456789'')"

definition is_hex_hyphen :: "char \<Rightarrow> bool" where
  "is_hex_hyphen c = (is_hex c \<or> c = CHR ''-'')"

definition match_at :: "string \<Rightarrow> (char \<Rightarrow> bool) \<Rightarrow> string \<Rightarrow> string option" where
  "match_at lit cls s =
     (if take (length lit) s = lit
      then (case takeWhile cls (drop (length lit) s) of
              [] \<Rightarrow> None
            | c # cs \<Rightarrow> Some (c # cs))
      else None)"

fun re_search :: "string \<Rightarrow> (char \<Rightarrow> bool) \<Rightarrow> string \<Rightarrow> string option" where
  "re_search lit cls [] = match_at lit cls []"
| "re_search lit cls (c # s) =
     (case match_at lit cls (c # s) of
        Some g \<Rightarrow> Some g
      | None \<Rightarrow> re_search lit cls s)"

text \<open>\<^verbatim>\<open>sub in s\<close> on strings.\<close>

fun contains :: "string \<Rightarrow> string \<Rightarrow> bool" where
  "contains sub [] = (sub = [])"
| "contains sub (c # s) = (take (length sub) (c # s) = sub \<or> contains sub s)"

text \<open>\<^verbatim>\<open>re.search(r'pipelines/([a-f0-9-]+)', row_str)\<close>, group 1.\<close>

definition search_pipeline :: "string \<Rightarrow> string option" where
  "search_pipeline row_str = re_search ''pipelines/'' is_hex_hyphen row_str"

text \<open>\<^verbatim>\<open>re.search(r'/warehouses/([a-f0-9]+)', http_path)\<close>, group 1.\<close>

definition search_warehouse :: "string \<Rightarrow> string option" where
  "search_warehouse http_path = re_search ''/warehouses/'' is_hex http_path"

subsection \<open>Exceptions, the SDK client and the process\<close>

text \<open>
  Every exception the script meets is an instance of \<^verbatim>\<open>Exception\<close>: the
  \<^verbatim>\<open>ValueError\<close> it raises itself and whatever an SDK call raises. \<open>str_exn\<close> is
  \<^verbatim>\<open>str(e)\<close>, the message.
\<close>

datatype exn = ValueError string | SdkError string

fun str_exn :: "exn \<Rightarrow> string" where
  "str_exn (ValueError m) = m"
| "str_exn (SdkError m) = m"

datatype abort = SystemExit nat | Uncaught exn

text \<open>A warehouse as the script reads it: \<^verbatim>\<open>wh.id\<close> and, when \<^verbatim>\<open>wh.state\<close> is
  present, \<^verbatim>\<open>wh.state.value\<close>.\<close>

record warehouse =
  wh_id :: string
  wh_state :: "string option"

text \<open>The statement response: \<^verbatim>\<open>result.result\<close> and \<^verbatim>\<open>result.result.data_array\<close>
  may each be absent.\<close>

record 'row result_data =
  data_array :: "'row list option"

record 'row statement_response =
  result :: "'row result_data option"

text \<open>
  The three SDK calls the script makes. Each may raise, and each may change the remote
  workspace. \<open>warehouses_list\<close> stands for \<^verbatim>\<open>list(client.warehouses.list())\<close>.
\<close>

record ('w, 'row) workspace_client =
  execute_statement :: "string \<Rightarrow> string \<Rightarrow> string \<Rightarrow> 'w \<Rightarrow> (exn + 'row statement_response) \<times> 'w"
  warehouses_list :: "'w \<Rightarrow> (exn + warehouse list) \<times> 'w"
  start_update :: "string \<Rightarrow> 'w \<Rightarrow> (exn + unit) \<times> 'w"

text \<open>
  What \<^verbatim>\<open>from databricks.sdk import WorkspaceClient; WorkspaceClient()\<close> does in this
  installation: the import fails, the constructor raises, or a client is returned.
\<close>

datatype ('w, 'row) sdk =
    NotInstalled
  | ConstructorRaises exn
  | Installed "('w, 'row) workspace_client"

text \<open>
  The process: \<^verbatim>\<open>os.environ\<close>, the SDK, and \<^verbatim>\<open>str\<close> on a row of the result (rows
  are opaque values of the SDK).
\<close>

record ('w, 'row) process =
  environ :: "string \<Rightarrow> string option"
  sdk :: "('w, 'row) sdk"
  str_row :: "'row \<Rightarrow> string"

datatype event =
    Print string
  | ExecuteStatement string string string
  | WarehousesList
  | StartUpdate string

record 'w state =
  world :: 'w
  trace :: "event list"

text \<open>Truthiness of an optional string: \<^verbatim>\<open>None\<close> and \<^verbatim>\<open>""\<close> are false.\<close>

definition truthy :: "string option \<Rightarrow> bool" where
  "truthy v = (case v of None \<Rightarrow> False | Some x \<Rightarrow> x \<noteq> [])"

definition emit :: "event \<Rightarrow> 'w state \<Rightarrow> 'w state" where
  "emit e s = s\<lparr>trace := trace s @ [e]\<rparr>"

definition print :: "string \<Rightarrow> 'w state \<Rightarrow> 'w state" where
  "print line s = emit (Print line) s"

subsection \<open>get_client\<close>

definition get_client ::
  "('w, 'row) process \<Rightarrow> 'w state \<Rightarrow> (abort + ('w, 'row) workspace_client) \<times> 'w state" where
  "get_client p s =
     (case sdk p of
        Installed client \<Rightarrow> (Inr client, s)
      | ConstructorRaises e \<Rightarrow> (Inl (Uncaught e), s)
      | NotInstalled \<Rightarrow>
          (Inl (SystemExit 1),
           print ''Install with: pip install databricks-sdk''
             (print ''Error: databricks-sdk not installed.'' s)))"

subsection \<open>_get_warehouse_id\<close>

definition resolution_message :: string where
  "resolution_message =
     ''Could not determine warehouse ID. '' @
     ''Set DATABRICKS_WAREHOUSE_ID or DATABRICKS_HTTP_PATH environment variable.''"

text \<open>The \<^verbatim>\<open>for wh in warehouses\<close> loop with its early return.\<close>

fun first_running :: "warehouse list \<Rightarrow> string option" where
  "first_running [] = None"
| "first_running (wh # whs) =
     (case wh_state wh of
        None \<Rightarrow> first_running whs
      | Some v \<Rightarrow> if v = ''RUNNING'' then Some (wh_id wh) else first_running whs)"

text \<open>The \<^verbatim>\<open>try\<close> block around the listing; \<^verbatim>\<open>except Exception: pass\<close> and the
  fall off its end both give \<open>None\<close>.\<close>

definition list_warehouses_try ::
  "('w, 'row) workspace_client \<Rightarrow> 'w state \<Rightarrow> string option \<times> 'w state" where
  "list_warehouses_try client s =
     (let s1 = emit WarehousesList s in
      case warehouses_list client (world s1) of
        (Inl e, w) \<Rightarrow> (None, s1\<lparr>world := w\<rparr>)
      | (Inr warehouses, w) \<Rightarrow>
          (case first_running warehouses of
             Some i \<Rightarrow> (Some i, s1\<lparr>world := w\<rparr>)
           | None \<Rightarrow>
               (case warehouses of
                  [] \<Rightarrow> (None, s1\<lparr>world := w\<rparr>)
                | wh # _ \<Rightarrow> (Some (wh_id wh), s1\<lparr>world := w\<rparr>))))"

definition get_warehouse_id ::
  "('w, 'row) process \<Rightarrow> ('w, 'row) workspace_client \<Rightarrow> 'w state \<Rightarrow> (exn + string) \<times> 'w state" where
  "get_warehouse_id p client s =
     (let warehouse_id = environ p ''DATABRICKS_WAREHOUSE_ID'' in
      if truthy warehouse_id
      then (Inr (case warehouse_id of Some i \<Rightarrow> i | None \<Rightarrow> []), s)
      else
        let http_path = (case environ p ''DATABRICKS_HTTP_PATH'' of Some h \<Rightarrow> h | None \<Rightarrow> []) in
        case search_warehouse http_path of
          Some g \<Rightarrow> (Inr g, s)
        | None \<Rightarrow>
            (case list_warehouses_try client s of
               (Some i, s1) \<Rightarrow> (Inr i, s1)
             | (None, s1) \<Rightarrow> (Inl (ValueError resolution_message), s1)))"

subsection \<open>discover_pipeline\<close>

text \<open>The \<^verbatim>\<open>for row in result.result.data_array\<close> loop; \<open>Some\<close> is its early return.\<close>

fun scan_rows :: "('row \<Rightarrow> string) \<Rightarrow> 'row list \<Rightarrow> string option" where
  "scan_rows str [] = None"
| "scan_rows str (row # rows) =
     (let row_str = str row in
      if contains ''pipelines/'' row_str
      then (case search_pipeline row_str of
              Some pipeline_id \<Rightarrow> Some pipeline_id
            | None \<Rightarrow> scan_rows str rows)
      else scan_rows str rows)"

text \<open>
  \<^verbatim>\<open>if result.result and result.result.data_array\<close>: the result object must be
  present and the array present and non-empty for the loop to run.
\<close>

definition scan_response :: "('row \<Rightarrow> string) \<Rightarrow> 'row statement_response \<Rightarrow> string option" where
  "scan_response str resp =
     (case result resp of
        None \<Rightarrow> None
      | Some rd \<Rightarrow>
          (case data_array rd of
             None \<Rightarrow> None
           | Some [] \<Rightarrow> None
           | Some (row # rows) \<Rightarrow> scan_rows str (row # rows)))"

text \<open>
  The body of the \<^verbatim>\<open>try\<close> block. The argument \<^verbatim>\<open>_get_warehouse_id(client)\<close> is
  evaluated inside it, before the call of \<^verbatim>\<open>execute_statement\<close>.
\<close>

definition discover_try ::
  "('w, 'row) process \<Rightarrow> ('w, 'row) workspace_client \<Rightarrow> string \<Rightarrow> 'w state \<Rightarrow>
     (exn + string option) \<times> 'w state" where
  "discover_try p client metric_view_name s =
     (case get_warehouse_id p client s of
        (Inl e, s1) \<Rightarrow> (Inl e, s1)
      | (Inr warehouse_id, s1) \<Rightarrow>
          (let statement = ''DESCRIBE EXTENDED '' @ metric_view_name;
               s2 = emit (ExecuteStatement warehouse_id statement ''30s'') s1 in
           case execute_statement client warehouse_id statement ''30s'' (world s2) of
             (Inl e, w) \<Rightarrow> (Inl e, s2\<lparr>world := w\<rparr>)
           | (Inr resp, w) \<Rightarrow>
               (case scan_response (str_row p) resp of
                  Some pipeline_id \<Rightarrow>
                    (Inr (Some pipeline_id),
                     print (''  Found pipeline ID: '' @ pipeline_id) (s2\<lparr>world := w\<rparr>))
                | None \<Rightarrow>
                    (Inr None,
                     print ''  No pipeline found. Make sure the metric view has materialization enabled.''
                       (s2\<lparr>world := w\<rparr>)))))"

text \<open>The \<^verbatim>\<open>except Exception as e\<close> handler.\<close>

definition discover_except :: "string \<Rightarrow> exn \<Rightarrow> 'w state \<Rightarrow> 'w state" where
  "discover_except metric_view_name e s =
     print ''  Look for 'Refresh information' section -> Pipeline URL contains the pipeline_id''
       (print (''    DESCRIBE EXTENDED '' @ metric_view_name @ '';'')
          (print ''  Alternatively, run this SQL in Databricks:''
             (print [] (print (''  Error: '' @ str_exn e) s))))"

definition discover_pipeline ::
  "('w, 'row) process \<Rightarrow> string \<Rightarrow> 'w state \<Rightarrow> (abort + string option) \<times> 'w state" where
  "discover_pipeline p metric_view_name s =
     (case get_client p s of
        (Inl a, s1) \<Rightarrow> (Inl a, s1)
      | (Inr client, s1) \<Rightarrow>
          (case discover_try p client metric_view_name
                  (print (''Looking up pipeline for: '' @ metric_view_name) s1) of
             (Inr r, s2) \<Rightarrow> (Inr r, s2)
           | (Inl e, s2) \<Rightarrow> (Inr None, discover_except metric_view_name e s2)))"

subsection \<open>refresh_pipelines\<close>

text \<open>The check mark and the ballot cross of the two report lines, as UTF-8.\<close>

definition check_mark :: string where
  "check_mark = [CHR 0xE2, CHR 0x9C, CHR 0x93]"

definition ballot_x :: string where
  "ballot_x = [CHR 0xE2, CHR 0x9C, CHR 0x97]"

fun refresh_loop :: "('w, 'row) workspace_client \<Rightarrow> string list \<Rightarrow> 'w state \<Rightarrow> 'w state" where
  "refresh_loop client [] s = s"
| "refresh_loop client (pipeline_id # pipeline_ids) s =
     (let s1 = print (''Starting refresh for pipeline: '' @ pipeline_id) s;
          s2 = emit (StartUpdate pipeline_id) s1 in
      case start_update client pipeline_id (world s2) of
        (Inr u, w) \<Rightarrow>
          refresh_loop client pipeline_ids
            (print (''  '' @ check_mark @ '' Refresh started successfully'') (s2\<lparr>world := w\<rparr>))
      | (Inl e, w) \<Rightarrow>
          refresh_loop client pipeline_ids
            (print (''  '' @ ballot_x @ '' Error: '' @ str_exn e) (s2\<lparr>world := w\<rparr>)))"

definition refresh_pipelines ::
  "('w, 'row) process \<Rightarrow> string list \<Rightarrow> 'w state \<Rightarrow> (abort + unit) \<times> 'w state" where
  "refresh_pipelines p pipeline_ids s =
     (case get_client p s of
        (Inl a, s1) \<Rightarrow> (Inl a, s1)
      | (Inr client, s1) \<Rightarrow> (Inr (), refresh_loop client pipeline_ids s1))"

subsection \<open>main\<close>

definition nl :: string where
  "nl = [CHR 0x0A]"

text \<open>The module docstring \<^verbatim>\<open>__doc__\<close>: a newline, then these lines, each ended by a
  newline.\<close>

definition doc_lines :: "string list" where
  "doc_lines =
     [''Manually refresh metric view materializations.'',
      [],
      ''This script triggers a refresh of the underlying Lakeflow Spark Declarative Pipelines'',
      ''for metric views with materialization.'',
      [],
      ''Usage:'',
      ''    # Discover pipeline IDs for metric views'',
      ''    uv run --env-file .env python scripts/refresh_metric_views.py --discover <catalog>.<schema>.mv_order_metrics'',
      ''    '',
      ''    # Refresh specific pipelines by ID'',
      ''    uv run --env-file .env python scripts/refresh_metric_views.py <pipeline_id_1> <pipeline_id_2>'',
      ''    '',
      ''    # Discover and refresh in one go'',
      ''    uv run --env-file .env python scripts/refresh_metric_views.py --refresh <catalog>.<schema>.mv_order_metrics'',
      [],
      ''Environment:'',
      ''    Set DATABRICKS_HOST and DATABRICKS_TOKEN in .env file, or use Databricks CLI profile.'',
      [],
      ''See: https://docs.databricks.com/aws/en/metric-views/materialization#manual-refresh'']"

definition doc :: string where
  "doc = nl @ concat (map (\<lambda>l. l @ nl) doc_lines)"

definition usage :: "string list" where
  "usage =
     [doc,
      nl @ ''Examples:'',
      ''  # Discover pipeline ID'',
      ''  uv run --env-file .env python scripts/refresh_metric_views.py --discover <catalog>.<schema>.mv_order_metrics'',
      [],
      ''  # Refresh by pipeline ID'',
      ''  uv run --env-file .env python scripts/refresh_metric_views.py 01484540-0a06-414a-b10f-e1b0e8097f15'',
      [],
      ''  # Discover and refresh in one go'',
      ''  uv run --env-file .env python scripts/refresh_metric_views.py --refresh <catalog>.<schema>.mv_order_metrics'']"

text \<open>The loop of the \<^verbatim>\<open>--discover\<close> branch; the value of each discovery is dropped.\<close>

fun discover_loop ::
  "('w, 'row) process \<Rightarrow> string list \<Rightarrow> 'w state \<Rightarrow> (abort + unit) \<times> 'w state" where
  "discover_loop p [] s = (Inr (), s)"
| "discover_loop p (view_name # views) s =
     (case discover_pipeline p view_name s of
        (Inl a, s1) \<Rightarrow> (Inl a, s1)
      | (Inr pid, s1) \<Rightarrow> discover_loop p views s1)"

text \<open>The loop of the \<^verbatim>\<open>--refresh\<close> branch: \<^verbatim>\<open>if pid: pipeline_ids.append(pid)\<close>.\<close>

fun collect_loop ::
  "('w, 'row) process \<Rightarrow> string list \<Rightarrow> string list \<Rightarrow> 'w state \<Rightarrow>
     (abort + string list) \<times> 'w state" where
  "collect_loop p [] pipeline_ids s = (Inr pipeline_ids, s)"
| "collect_loop p (view_name # views) pipeline_ids s =
     (case discover_pipeline p view_name s of
        (Inl a, s1) \<Rightarrow> (Inl a, s1)
      | (Inr pid, s1) \<Rightarrow>
          (case pid of
             None \<Rightarrow> collect_loop p views pipeline_ids s1
           | Some i \<Rightarrow>
               if truthy pid then collect_loop p views (pipeline_ids @ [i]) s1
               else collect_loop p views pipeline_ids s1))"

text \<open>\<open>argv\<close> is \<^verbatim>\<open>sys.argv\<close>, the script's name first.\<close>

definition main ::
  "('w, 'row) process \<Rightarrow> string list \<Rightarrow> 'w state \<Rightarrow> (abort + unit) \<times> 'w state" where
  "main p argv s =
     (if length argv < 2 then (Inl (SystemExit 1), fold print usage s)
      else if argv ! 1 = ''--discover'' then
        (if length argv < 3
         then (Inl (SystemExit 1), print ''Error: --discover requires a metric view name'' s)
         else discover_loop p (drop 2 argv) s)
      else if argv ! 1 = ''--refresh'' then
        (if length argv < 3
         then (Inl (SystemExit 1), print ''Error: --refresh requires metric view name(s)'' s)
         else
           (case collect_loop p (drop 2 argv) [] s of
              (Inl a, s1) \<Rightarrow> (Inl a, s1)
            | (Inr pipeline_ids, s1) \<Rightarrow>
                if pipeline_ids \<noteq> [] then refresh_pipelines p pipeline_ids (print [] s1)
                else (Inl (SystemExit 1), print ''No pipelines found to refresh.'' s1)))
      else refresh_pipelines p (drop 1 argv) s)"

text \<open>
  The exit status of the process: 0 when \<open>main\<close> returns, the argument of
  \<^verbatim>\<open>sys.exit\<close>, and 1 when an exception reaches the top level.
\<close>

fun exit_status :: "abort + unit \<Rightarrow> nat" where
  "exit_status (Inr u) = 0"
| "exit_status (Inl (SystemExit n)) = n"
| "exit_status (Inl (Uncaught e)) = 1"

section \<open>What the description of the script says\<close>

text \<open>
  The definitions of this section follow the words of the description, not the code; the
  theorems below compare the two.
\<close>

text \<open>The rows a statement response carries: none when the result or its array is absent.\<close>

definition response_rows :: "'row statement_response \<Rightarrow> 'row list" where
  "response_rows resp =
     (case result resp of
        None \<Rightarrow> []
      | Some rd \<Rightarrow> (case data_array rd of None \<Rightarrow> [] | Some rows \<Rightarrow> rows))"

text \<open>The identifier of the first row, in row order, whose text has a match.\<close>

definition first_pipeline_id :: "('row \<Rightarrow> string) \<Rightarrow> 'row list \<Rightarrow> string option" where
  "first_pipeline_id str rows =
     (case List.find (\<lambda>row. search_pipeline (str row) \<noteq> None) rows of
        None \<Rightarrow> None
      | Some row \<Rightarrow> search_pipeline (str row))"

definition running :: "warehouse \<Rightarrow> bool" where
  "running wh = (wh_state wh = Some ''RUNNING'')"

text \<open>The first running warehouse, or else the first warehouse whatever its state.\<close>

definition pick_warehouse :: "warehouse list \<Rightarrow> string option" where
  "pick_warehouse whs =
     (case filter running whs of
        wh # _ \<Rightarrow> Some (wh_id wh)
      | [] \<Rightarrow> (case whs of [] \<Rightarrow> None | wh # _ \<Rightarrow> Some (wh_id wh)))"

text \<open>The value of \<^verbatim>\<open>DATABRICKS_HTTP_PATH\<close>, empty when unset.\<close>

definition http_path_of :: "('w, 'row) process \<Rightarrow> string" where
  "http_path_of p = (case environ p ''DATABRICKS_HTTP_PATH'' of Some h \<Rightarrow> h | None \<Rightarrow> [])"

text \<open>No environment override resolves a warehouse.\<close>

definition no_override :: "('w, 'row) process \<Rightarrow> bool" where
  "no_override p =
     (\<not> truthy (environ p ''DATABRICKS_WAREHOUSE_ID'') \<and> search_warehouse (http_path_of p) = None)"

text \<open>
  Discovery run on each view in turn, each on the state the one before left: the results
  in order and the final state. An aborted discovery ends the run.
\<close>

fun discover_results ::
  "('w, 'row) process \<Rightarrow> string list \<Rightarrow> 'w state \<Rightarrow> string option list \<times> 'w state" where
  "discover_results p [] s = ([], s)"
| "discover_results p (v # vs) s =
     (case discover_pipeline p v s of
        (Inl a, s1) \<Rightarrow> ([], s1)
      | (Inr r, s1) \<Rightarrow> (case discover_results p vs s1 of (rs, s2) \<Rightarrow> (r # rs, s2)))"

text \<open>The identifiers among a list of discovery results, in order.\<close>

fun resolved :: "string option list \<Rightarrow> string list" where
  "resolved [] = []"
| "resolved (None # rs) = resolved rs"
| "resolved (Some i # rs) = i # resolved rs"

text \<open>The two lines that report one refresh.\<close>

definition report_ok :: string where
  "report_ok = ''  '' @ check_mark @ '' Refresh started successfully''"

definition report_error :: "exn \<Rightarrow> string" where
  "report_error e = ''  '' @ ballot_x @ '' Error: '' @ str_exn e"

text \<open>
  What one refresh leaves in the trace: the announcement, the call, and the report line of
  what the call did, success when it returned and the message of its exception when it
  raised.
\<close>

definition refresh_events :: "string \<Rightarrow> exn + unit \<Rightarrow> event list" where
  "refresh_events pipeline_id outcome =
     [Print (''Starting refresh for pipeline: '' @ pipeline_id),
      StartUpdate pipeline_id,
      Print (case outcome of Inr u \<Rightarrow> report_ok | Inl e \<Rightarrow> report_error e)]"

fun is_start_update :: "event \<Rightarrow> bool" where
  "is_start_update (StartUpdate i) = True"
| "is_start_update e = False"

fun is_remote_call :: "event \<Rightarrow> bool" where
  "is_remote_call (Print l) = False"
| "is_remote_call e = True"

text \<open>The line that ends a discovery whose statement returned.\<close>

definition found_line :: "string option \<Rightarrow> string" where
  "found_line r =
     (case r of
        Some i \<Rightarrow> ''  Found pipeline ID: '' @ i
      | None \<Rightarrow> ''  No pipeline found. Make sure the metric view has materialization enabled.'')"

text \<open>
  A text has a pipeline identifier when some occurrence of \<^verbatim>\<open>pipelines/\<close> is followed
  by a lowercase hex digit or a hyphen.
\<close>

definition has_pipeline_token :: "string \<Rightarrow> bool" where
  "has_pipeline_token t =
     (\<exists>pre post. t = pre @ ''pipelines/'' @ post \<and> post \<noteq> [] \<and>
        hd post \<in> set ''0123456789abcdef-'')"

text \<open>
  The pipeline identifier of a text: the non-empty run of lowercase hex digits and hyphens
  that follows the leftmost such occurrence of \<^verbatim>\<open>pipelines/\<close>, taken as far as it goes.
\<close>

definition pipeline_token :: "string \<Rightarrow> string \<Rightarrow> bool" where
  "pipeline_token t g =
     (\<exists>pre post. t = pre @ ''pipelines/'' @ g @ post \<and>
        g \<noteq> [] \<and> set g \<subseteq> set ''0123456789abcdef-'' \<and>
        (post = [] \<or> hd post \<notin> set ''0123456789abcdef-'') \<and>
        (\<forall>pre' post'. t = pre' @ ''pipelines/'' @ post' \<and> post' \<noteq> [] \<and>
             hd post' \<in> set ''0123456789abcdef-'' \<longrightarrow> length pre \<le> length pre'))"

section \<open>A test double\<close>

text \<open>
  A small workspace to run the script on: the remote state counts the calls made, rows are
  lists of cells, shown between brackets with each cell in single quotes.
\<close>

definition demo_str :: "string list \<Rightarrow> string" where
  "demo_str row = ''['' @ concat (map (\<lambda>cell. [CHR 0x27] @ cell @ [CHR 0x27] @ '', '') row) @ '']''"

definition demo_rows :: "string list list" where
  "demo_rows =
     [[''Refresh information'', []],
      [''Pipeline URL'', ''https://host/pipelines/ (pending)''],
      [''Latest Refresh'', ''https://host/pipelines/3f9a7b2c-1111-2222-3333-444455556666/updates/7''],
      [''Other'', ''pipelines/0000'']]"

definition demo_client :: "(nat, string list) workspace_client" where
  "demo_client =
     \<lparr>execute_statement = (\<lambda>warehouse_id statement wait_timeout w.
          (if statement = ''DESCRIBE EXTENDED main.gold.mv_orders''
           then Inr \<lparr>result = Some \<lparr>data_array = Some demo_rows\<rparr>\<rparr>
           else if statement = ''DESCRIBE EXTENDED main.gold.plain''
           then Inr \<lparr>result = Some \<lparr>data_array = None\<rparr>\<rparr>
           else Inl (SdkError ''TABLE_OR_VIEW_NOT_FOUND''), Suc w)),
      warehouses_list = (\<lambda>w.
          (Inr [\<lparr>wh_id = ''w1'', wh_state = Some ''STOPPED''\<rparr>,
                \<lparr>wh_id = ''w2'', wh_state = Some ''RUNNING''\<rparr>], Suc w)),
      start_update = (\<lambda>pipeline_id w.
          (if pipeline_id = ''p1'' then Inl (SdkError ''no such pipeline'') else Inr (), Suc w))\<rparr>"

text \<open>The same client with a warehouse listing that raises.\<close>

definition demo_client_nolist :: "(nat, string list) workspace_client" where
  "demo_client_nolist =
     demo_client\<lparr>warehouses_list := (\<lambda>w. (Inl (SdkError ''PERMISSION_DENIED''), Suc w))\<rparr>"

definition demo_env :: "(string \<times> string) list \<Rightarrow> string \<Rightarrow> string option" where
  "demo_env kvs = map_of kvs"

definition demo :: "(string \<times> string) list \<Rightarrow> (nat, string list) process" where
  "demo kvs = \<lparr>environ = demo_env kvs, sdk = Installed demo_client, str_row = demo_str\<rparr>"

definition demo_nolist :: "(nat, string list) process" where
  "demo_nolist = \<lparr>environ = demo_env [], sdk = Installed demo_client_nolist, str_row = demo_str\<rparr>"

definition start :: "nat state" where
  "start = \<lparr>world = 0, trace = []\<rparr>"

section \<open>Properties of the text functions\<close>

lemma match_at_Some:
  "match_at lit cls s = Some g \<Longrightarrow>
     g \<noteq> [] \<and> take (length lit) s = lit \<and> g = takeWhile cls (drop (length lit) s)"
  by (auto simp: match_at_def split: if_splits list.splits)

lemma match_at_Nil: "match_at lit cls [] = None"
  by (simp add: match_at_def)

lemma match_at_contains: "match_at lit cls s = Some g \<Longrightarrow> contains lit s"
  by (cases s) (auto simp: match_at_Nil dest: match_at_Some)

lemma contains_iff: "contains sub s \<longleftrightarrow> (\<exists>pre post. s = pre @ sub @ post)"
proof (induction s)
  case Nil
  then show ?case by auto
next
  case (Cons c s)
  show ?case
  proof
    assume "contains sub (c # s)"
    then consider "take (length sub) (c # s) = sub" | "contains sub s" by auto
    then show "\<exists>pre post. c # s = pre @ sub @ post"
    proof cases
      case 1
      then have "c # s = [] @ sub @ drop (length sub) (c # s)"
        by (metis append_Nil append_take_drop_id)
      then show ?thesis by blast
    next
      case 2
      with Cons obtain pre post where "s = pre @ sub @ post" by blast
      then have "c # s = (c # pre) @ sub @ post" by simp
      then show ?thesis by blast
    qed
  next
    assume "\<exists>pre post. c # s = pre @ sub @ post"
    then obtain pre post where e: "c # s = pre @ sub @ post" by blast
    show "contains sub (c # s)"
    proof (cases pre)
      case Nil
      with e have "take (length sub) (c # s) = sub" by simp
      then show ?thesis by simp
    next
      case (Cons a pre')
      with e have "s = pre' @ sub @ post" by simp
      with Cons.IH show ?thesis by auto
    qed
  qed
qed

text \<open>A match implies the substring test of the script, so the test never hides a match.\<close>

lemma re_search_contains: "re_search lit cls s = Some g \<Longrightarrow> contains lit s"
proof (induction s)
  case Nil
  then show ?case by (simp add: match_at_Nil)
next
  case (Cons c s)
  show ?case
  proof (cases "match_at lit cls (c # s)")
    case None
    with Cons show ?thesis by simp
  next
    case (Some g')
    then have "contains lit (c # s)" by (rule match_at_contains)
    then show ?thesis .
  qed
qed

lemma re_search_nonempty: "re_search lit cls s = Some g \<Longrightarrow> g \<noteq> []"
  by (induction s) (auto dest: match_at_Some split: option.splits)

lemma re_search_class: "re_search lit cls s = Some g \<Longrightarrow> c \<in> set g \<Longrightarrow> cls c"
proof (induction s)
  case Nil
  then show ?case by (auto dest!: match_at_Some dest: set_takeWhileD)
next
  case (Cons a s)
  then show ?case by (auto dest!: match_at_Some dest: set_takeWhileD split: option.splits)
qed

text \<open>The match sits in the text, right after the literal, and cannot be extended.\<close>
lemma match_at_decomp:
  assumes "match_at lit cls s = Some g"
  shows "\<exists>post. s = lit @ g @ post \<and> (post = [] \<or> \<not> cls (hd post))"
proof -
  from assms have t: "take (length lit) s = lit" and g: "g = takeWhile cls (drop (length lit) s)"
    by (auto dest: match_at_Some)
  let ?post = "dropWhile cls (drop (length lit) s)"
  have "s = take (length lit) s @ drop (length lit) s" by simp
  also have "\<dots> = lit @ g @ ?post" using t g by simp
  finally have "s = lit @ g @ ?post" .
  moreover have "?post = [] \<or> \<not> cls (hd ?post)"
    by (metis hd_dropWhile)
  ultimately show ?thesis by blast
qed

lemma re_search_decomp:
  "re_search lit cls s = Some g \<Longrightarrow>
     \<exists>pre post. s = pre @ lit @ g @ post \<and> (post = [] \<or> \<not> cls (hd post)) \<and>
       (\<forall>k < length pre. match_at lit cls (drop k s) = None)"
proof (induction s)
  case Nil
  from match_at_decomp[of lit cls "[]" g] Nil show ?case by auto
next
  case (Cons c s)
  show ?case
  proof (cases "match_at lit cls (c # s)")
    case (Some g')
    with Cons.prems have "g' = g" by simp
    with Some match_at_decomp[of lit cls "c # s" g] obtain post where
      "c # s = [] @ lit @ g @ post" "post = [] \<or> \<not> cls (hd post)" by auto
    then show ?thesis by (intro exI[of _ "[]"] exI[of _ post]) simp
  next
    case None
    with Cons.prems have "re_search lit cls s = Some g" by simp
    from Cons.IH[OF this] obtain pre post where
      p: "s = pre @ lit @ g @ post" "post = [] \<or> \<not> cls (hd post)"
         "\<forall>k < length pre. match_at lit cls (drop k s) = None" by blast
    have "\<forall>k < length (c # pre). match_at lit cls (drop k (c # s)) = None"
    proof (intro allI impI)
      fix k assume "k < length (c # pre)"
      then show "match_at lit cls (drop k (c # s)) = None"
        using None p(3) by (cases k) auto
    qed
    with p(1,2) show ?thesis
      by (intro exI[of _ "c # pre"] exI[of _ post]) simp
  qed
qed

lemma re_search_None:
  "re_search lit cls s = None \<longleftrightarrow> (\<forall>k \<le> length s. match_at lit cls (drop k s) = None)"
proof (induction s)
  case Nil
  then show ?case by simp
next
  case (Cons c s)
  show ?case
  proof (cases "match_at lit cls (c # s)")
    case (Some g)
    then show ?thesis by (auto intro: exI[of _ 0])
  next
    case None
    have "(\<forall>k \<le> length (c # s). match_at lit cls (drop k (c # s)) = None) \<longleftrightarrow>
          (\<forall>k \<le> length s. match_at lit cls (drop k s) = None)"
    proof
      assume a: "\<forall>k \<le> length (c # s). match_at lit cls (drop k (c # s)) = None"
      show "\<forall>k \<le> length s. match_at lit cls (drop k s) = None"
      proof (intro allI impI)
        fix k assume "k \<le> length s"
        with a have "match_at lit cls (drop (Suc k) (c # s)) = None" by (metis Suc_le_mono length_Cons)
        then show "match_at lit cls (drop k s) = None" by simp
      qed
    next
      assume a: "\<forall>k \<le> length s. match_at lit cls (drop k s) = None"
      show "\<forall>k \<le> length (c # s). match_at lit cls (drop k (c # s)) = None"
      proof (intro allI impI)
        fix k assume "k \<le> length (c # s)"
        then show "match_at lit cls (drop k (c # s)) = None"
          using a None by (cases k) auto
      qed
    qed
    with None Cons show ?thesis by simp
  qed
qed

section \<open>The trace\<close>

lemma world_emit: "world (emit e s) = world s"
  by (simp add: emit_def)

lemma trace_emit: "trace (emit e s) = trace s @ [e]"
  by (simp add: emit_def)

lemma world_print: "world (print l s) = world s"
  by (simp add: print_def world_emit)

lemma trace_print: "trace (print l s) = trace s @ [Print l]"
  by (simp add: print_def trace_emit)

section \<open>Warehouse resolution\<close>

lemma first_running_filter:
  "first_running whs = (case filter running whs of [] \<Rightarrow> None | wh # _ \<Rightarrow> Some (wh_id wh))"
  by (induction whs) (auto simp: running_def split: option.splits)

lemma first_running_pick:
  "(case first_running whs of
      Some i \<Rightarrow> Some i
    | None \<Rightarrow> (case whs of [] \<Rightarrow> None | wh # _ \<Rightarrow> Some (wh_id wh))) = pick_warehouse whs"
  by (simp add: first_running_filter pick_warehouse_def split: list.splits)

lemma list_warehouses_try_eq:
  assumes "warehouses_list client (world s) = (r, w)"
  shows "list_warehouses_try client s =
           ((case r of Inl e \<Rightarrow> None | Inr whs \<Rightarrow> pick_warehouse whs),
            (emit WarehousesList s)\<lparr>world := w\<rparr>)"
proof (cases r)
  case (Inl e)
  with assms show ?thesis by (simp add: list_warehouses_try_def world_emit)
next
  case (Inr whs)
  with assms show ?thesis
    by (simp add: list_warehouses_try_def world_emit first_running_pick[symmetric]
             split: option.splits list.splits)
qed

lemma get_warehouse_id_env:
  assumes "environ p ''DATABRICKS_WAREHOUSE_ID'' = Some i" and "i \<noteq> []"
  shows "get_warehouse_id p client s = (Inr i, s)"
  using assms by (simp add: get_warehouse_id_def truthy_def)

lemma get_warehouse_id_path:
  assumes "\<not> truthy (environ p ''DATABRICKS_WAREHOUSE_ID'')"
    and "search_warehouse (http_path_of p) = Some g"
  shows "get_warehouse_id p client s = (Inr g, s)"
  using assms by (simp add: get_warehouse_id_def http_path_of_def)

lemma get_warehouse_id_list:
  assumes "no_override p" and "warehouses_list client (world s) = (r, w)"
  shows "get_warehouse_id p client s =
           ((case r of
               Inl e \<Rightarrow> Inl (ValueError resolution_message)
             | Inr whs \<Rightarrow>
                 (case pick_warehouse whs of
                    None \<Rightarrow> Inl (ValueError resolution_message)
                  | Some i \<Rightarrow> Inr i)),
            (emit WarehousesList s)\<lparr>world := w\<rparr>)"
  using assms
  by (simp add: get_warehouse_id_def no_override_def http_path_of_def list_warehouses_try_eq
           split: sum.splits option.splits)

lemma pick_warehouse_None: "pick_warehouse whs = None \<longleftrightarrow> whs = []"
  by (auto simp: pick_warehouse_def split: list.splits)

lemma search_warehouse_nonempty: "search_warehouse h = Some g \<Longrightarrow> g \<noteq> []"
  unfolding search_warehouse_def by (rule re_search_nonempty)

lemma search_pipeline_nonempty: "search_pipeline h = Some g \<Longrightarrow> g \<noteq> []"
  unfolding search_pipeline_def by (rule re_search_nonempty)

lemma get_warehouse_id_override:
  assumes "\<not> no_override p"
  shows "\<exists>i. get_warehouse_id p client s = (Inr i, s) \<and> i \<noteq> []"
proof (cases "truthy (environ p ''DATABRICKS_WAREHOUSE_ID'')")
  case True
  then obtain i where "environ p ''DATABRICKS_WAREHOUSE_ID'' = Some i" "i \<noteq> []"
    by (auto simp: truthy_def split: option.splits)
  then show ?thesis by (auto simp: get_warehouse_id_env)
next
  case False
  with assms obtain g where g: "search_warehouse (http_path_of p) = Some g"
    by (auto simp: no_override_def)
  with False have "get_warehouse_id p client s = (Inr g, s)"
    by (rule get_warehouse_id_path)
  with g show ?thesis by (auto dest: search_warehouse_nonempty)
qed

section \<open>Discovery\<close>

lemma search_pipeline_contains: "search_pipeline t = Some g \<Longrightarrow> contains ''pipelines/'' t"
  unfolding search_pipeline_def by (rule re_search_contains)

lemma scan_rows_step:
  "scan_rows str (row # rows) =
     (case search_pipeline (str row) of Some i \<Rightarrow> Some i | None \<Rightarrow> scan_rows str rows)"
proof (cases "search_pipeline (str row)")
  case None
  then show ?thesis by (simp add: Let_def)
next
  case (Some i)
  then have "contains ''pipelines/'' (str row)" by (rule search_pipeline_contains)
  with Some show ?thesis by (simp add: Let_def)
qed

lemma scan_rows_first: "scan_rows str rows = first_pipeline_id str rows"
proof (induction rows)
  case Nil
  show ?case by (simp add: first_pipeline_id_def)
next
  case (Cons row rows)
  show ?case
  proof (cases "search_pipeline (str row)")
    case None
    with Cons show ?thesis
      by (simp only: scan_rows_step) (simp add: first_pipeline_id_def)
  next
    case (Some i)
    then show ?thesis
      by (simp only: scan_rows_step) (simp add: first_pipeline_id_def)
  qed
qed

lemma scan_response_first:
  "scan_response str resp = first_pipeline_id str (response_rows resp)"
proof (cases "result resp")
  case None
  then show ?thesis by (simp add: scan_response_def response_rows_def first_pipeline_id_def)
next
  case (Some rd)
  show ?thesis
  proof (cases "data_array rd")
    case None
    with Some show ?thesis by (simp add: scan_response_def response_rows_def first_pipeline_id_def)
  next
    case (Some rows)
    with \<open>result resp = Some rd\<close> show ?thesis
      by (cases rows)
         (simp_all add: scan_response_def response_rows_def scan_rows_first first_pipeline_id_def
            del: scan_rows.simps)
  qed
qed

lemma first_pipeline_id_nonempty: "first_pipeline_id str rows = Some i \<Longrightarrow> i \<noteq> []"
  by (auto simp: first_pipeline_id_def split: option.splits dest: search_pipeline_nonempty)

lemma first_pipeline_id_None:
  "first_pipeline_id str rows = None \<longleftrightarrow> (\<forall>row \<in> set rows. search_pipeline (str row) = None)"
  by (auto simp: first_pipeline_id_def find_None_iff split: option.splits dest: find_Some_iff[THEN iffD1])

lemma first_pipeline_id_append:
  assumes "\<forall>row \<in> set rows1. search_pipeline (str row) = None"
    and "search_pipeline (str row) = Some i"
  shows "first_pipeline_id str (rows1 @ row # rows2) = Some i"
  using assms by (induction rows1) (auto simp: first_pipeline_id_def)

lemma discover_try_unresolved:
  "get_warehouse_id p client s = (Inl e, s1) \<Longrightarrow> discover_try p client name s = (Inl e, s1)"
  by (simp add: discover_try_def)

lemma discover_try_raises:
  assumes "get_warehouse_id p client s = (Inr i, s1)"
    and "execute_statement client i (''DESCRIBE EXTENDED '' @ name) ''30s'' (world s1) = (Inl e, w)"
  shows "discover_try p client name s =
           (Inl e, (emit (ExecuteStatement i (''DESCRIBE EXTENDED '' @ name) ''30s'') s1)\<lparr>world := w\<rparr>)"
  using assms by (simp add: discover_try_def Let_def world_emit)

lemma discover_try_returns:
  assumes "get_warehouse_id p client s = (Inr i, s1)"
    and "execute_statement client i (''DESCRIBE EXTENDED '' @ name) ''30s'' (world s1) = (Inr resp, w)"
  shows "discover_try p client name s =
           (Inr (scan_response (str_row p) resp),
            print (found_line (scan_response (str_row p) resp))
              ((emit (ExecuteStatement i (''DESCRIBE EXTENDED '' @ name) ''30s'') s1)\<lparr>world := w\<rparr>))"
  using assms by (simp add: discover_try_def Let_def world_emit found_line_def split: option.splits)

lemma discover_try_Some_nonempty:
  assumes "discover_try p client name s = (Inr (Some i), s')"
  shows "i \<noteq> []"
proof -
  from assms obtain resp where "scan_response (str_row p) resp = Some i"
    by (auto simp: discover_try_def Let_def split: prod.splits sum.splits option.splits)
  then show ?thesis by (simp add: scan_response_first first_pipeline_id_nonempty)
qed

lemma discover_pipeline_installed:
  assumes "sdk p = Installed client"
  shows "discover_pipeline p name s =
           (case discover_try p client name (print (''Looking up pipeline for: '' @ name) s) of
              (Inr r, s2) \<Rightarrow> (Inr r, s2)
            | (Inl e, s2) \<Rightarrow> (Inr None, discover_except name e s2))"
  using assms by (simp add: discover_pipeline_def get_client_def)

lemma discover_pipeline_total:
  assumes "sdk p = Installed client"
  shows "\<exists>r s'. discover_pipeline p name s = (Inr r, s')"
  by (simp add: discover_pipeline_installed[OF assms] split: prod.splits sum.splits)

lemma discover_pipeline_Some_nonempty:
  assumes "discover_pipeline p name s = (Inr (Some i), s')"
  shows "i \<noteq> []"
proof (cases "sdk p")
  case (Installed client)
  from assms show ?thesis
    by (auto simp: discover_pipeline_installed[OF Installed] split: prod.splits sum.splits
             dest: discover_try_Some_nonempty)
qed (use assms in \<open>simp_all add: discover_pipeline_def get_client_def\<close>)

lemma trace_discover_except:
  "trace (discover_except name e s) =
     trace s @ [Print (''  Error: '' @ str_exn e), Print [],
                Print ''  Alternatively, run this SQL in Databricks:'',
                Print (''    DESCRIBE EXTENDED '' @ name @ '';''),
                Print ''  Look for 'Refresh information' section -> Pipeline URL contains the pipeline_id'']"
  by (simp add: discover_except_def trace_print)

lemma world_discover_except: "world (discover_except name e s) = world s"
  by (simp add: discover_except_def world_print)

lemma match_at_None_iff:
  "match_at lit cls t = None \<longleftrightarrow>
     \<not> (take (length lit) t = lit \<and> takeWhile cls (drop (length lit) t) \<noteq> [])"
  by (auto simp: match_at_def split: list.splits)

text \<open>No match at all: no occurrence of the literal is followed by a character of the class.\<close>

lemma re_search_None_occurrences:
  "re_search lit cls s = None \<longleftrightarrow>
     (\<forall>pre post. s = pre @ lit @ post \<longrightarrow> post = [] \<or> \<not> cls (hd post))"
proof
  assume n: "re_search lit cls s = None"
  show "\<forall>pre post. s = pre @ lit @ post \<longrightarrow> post = [] \<or> \<not> cls (hd post)"
  proof (intro allI impI)
    fix pre post assume s: "s = pre @ lit @ post"
    then have "length pre \<le> length s" by simp
    with n have "match_at lit cls (drop (length pre) s) = None"
      by (simp add: re_search_None)
    with s have "takeWhile cls post = []" by (simp add: match_at_None_iff)
    then show "post = [] \<or> \<not> cls (hd post)" by (cases post) (auto split: if_splits)
  qed
next
  assume a: "\<forall>pre post. s = pre @ lit @ post \<longrightarrow> post = [] \<or> \<not> cls (hd post)"
  have "match_at lit cls (drop k s) = None" for k
  proof (rule ccontr)
    assume "match_at lit cls (drop k s) \<noteq> None"
    then have t: "take (length lit) (drop k s) = lit"
      and w: "takeWhile cls (drop (length lit) (drop k s)) \<noteq> []"
      by (auto simp: match_at_None_iff)
    let ?post = "drop (length lit) (drop k s)"
    have "drop k s = take (length lit) (drop k s) @ ?post"
      by (simp only: append_take_drop_id)
    then have "take k s @ drop k s = take k s @ take (length lit) (drop k s) @ ?post"
      by (simp only:)
    then have "s = take k s @ take (length lit) (drop k s) @ ?post"
      by (simp only: append_take_drop_id)
    with t have "s = take k s @ lit @ ?post" by simp
    with a have "?post = [] \<or> \<not> cls (hd ?post)" by blast
    with w show False by (cases ?post) auto
  qed
  then show "re_search lit cls s = None" by (simp add: re_search_None)
qed

lemma get_warehouse_id_Inl:
  assumes "get_warehouse_id p client s = (Inl e, s1)"
  shows "e = ValueError resolution_message \<and> trace s1 = trace s @ [WarehousesList]"
proof (cases "no_override p")
  case False
  from get_warehouse_id_override[OF False, of client s] assms show ?thesis by auto
next
  case True
  obtain r w where rw: "warehouses_list client (world s) = (r, w)"
    by (cases "warehouses_list client (world s)")
  from get_warehouse_id_list[OF True rw] assms show ?thesis
    by (auto simp: trace_emit split: sum.splits option.splits)
qed

lemma discover_loop_step:
  assumes "fst (discover_pipeline p name s) = Inr r"
  shows "discover_loop p (name # views) s = discover_loop p views (snd (discover_pipeline p name s))"
  using assms by (cases "discover_pipeline p name s") auto

lemma collect_loop_None:
  assumes "fst (discover_pipeline p name s) = Inr None"
  shows "collect_loop p (name # views) ids s =
           collect_loop p views ids (snd (discover_pipeline p name s))"
  using assms by (cases "discover_pipeline p name s") auto

section \<open>The pipeline identifier of a text\<close>

lemma is_hex_hyphen_iff: "is_hex_hyphen c \<longleftrightarrow> c \<in> set ''0123456789abcdef-''"
  by (auto simp: is_hex_hyphen_def is_hex_def)

lemma has_pipeline_token_iff: "has_pipeline_token t \<longleftrightarrow> search_pipeline t \<noteq> None"
proof -
  have "search_pipeline t = None \<longleftrightarrow> \<not> has_pipeline_token t"
    unfolding search_pipeline_def has_pipeline_token_def re_search_None_occurrences
      is_hex_hyphen_iff by blast
  then show ?thesis by auto
qed

lemma match_at_append: "cls c \<Longrightarrow> match_at lit cls (lit @ c # post) \<noteq> None"
  by (simp add: match_at_def)

lemma re_search_leftmost:
  assumes "re_search lit cls t = Some g"
  shows "\<exists>pre post. t = pre @ lit @ g @ post \<and> g \<noteq> [] \<and> (\<forall>c \<in> set g. cls c) \<and>
           (post = [] \<or> \<not> cls (hd post)) \<and>
           (\<forall>pre' post'. t = pre' @ lit @ post' \<and> post' \<noteq> [] \<and> cls (hd post')
               \<longrightarrow> length pre \<le> length pre')"
proof -
  from re_search_decomp[OF assms] obtain pre post where
    d: "t = pre @ lit @ g @ post" "post = [] \<or> \<not> cls (hd post)"
       "\<forall>k < length pre. match_at lit cls (drop k t) = None" by blast
  have "length pre \<le> length pre'"
    if o: "t = pre' @ lit @ post'" "post' \<noteq> []" "cls (hd post')" for pre' post'
  proof (rule ccontr)
    assume "\<not> length pre \<le> length pre'"
    then have "length pre' < length pre" by simp
    with d(3) have "match_at lit cls (drop (length pre') t) = None" by blast
    moreover from o(1) have "drop (length pre') t = lit @ post'" by simp
    moreover from o(2,3) have "match_at lit cls (lit @ post') \<noteq> None"
      by (cases post') (simp_all add: match_at_append)
    ultimately show False by simp
  qed
  with d(1,2) re_search_nonempty[OF assms] re_search_class[OF assms] show ?thesis by blast
qed

lemma search_pipeline_token: "search_pipeline t = Some g \<Longrightarrow> pipeline_token t g"
proof -
  assume "search_pipeline t = Some g"
  then have "re_search ''pipelines/'' is_hex_hyphen t = Some g" by (simp add: search_pipeline_def)
  from re_search_leftmost[OF this] show ?thesis
    unfolding pipeline_token_def is_hex_hyphen_iff by (simp only: subset_iff) blast
qed

lemma run_prefix_unique:
  assumes "g @ post = g' @ post'"
    and "\<forall>c \<in> set g. P c" "post = [] \<or> \<not> P (hd post)"
    and "\<forall>c \<in> set g'. P c" "post' = [] \<or> \<not> P (hd post')"
  shows "g = g'"
proof -
  have "takeWhile P (g @ post) = g" using assms(2,3) by (cases post) auto
  moreover have "takeWhile P (g' @ post') = g'" using assms(4,5) by (cases post') auto
  ultimately show ?thesis using assms(1) by simp
qed

lemma leftmost_run_unique:
  assumes "t = pre @ lit @ g @ post" "g \<noteq> []" "\<forall>c \<in> set g. P c" "post = [] \<or> \<not> P (hd post)"
    and "\<forall>pre' post'. t = pre' @ lit @ post' \<and> post' \<noteq> [] \<and> P (hd post')
           \<longrightarrow> length pre \<le> length pre'"
    and "t = pre2 @ lit @ g2 @ post2" "g2 \<noteq> []" "\<forall>c \<in> set g2. P c"
      "post2 = [] \<or> \<not> P (hd post2)"
    and "\<forall>pre' post'. t = pre' @ lit @ post' \<and> post' \<noteq> [] \<and> P (hd post')
           \<longrightarrow> length pre2 \<le> length pre'"
  shows "g = g2"
proof -
  have hg: "g @ post \<noteq> [] \<and> P (hd (g @ post))" using assms(2,3) by (cases g) auto
  have hg2: "g2 @ post2 \<noteq> [] \<and> P (hd (g2 @ post2))" using assms(7,8) by (cases g2) auto
  from assms(5) assms(6) hg2 have "length pre \<le> length pre2" by blast
  moreover from assms(10) assms(1) hg have "length pre2 \<le> length pre" by blast
  ultimately have l: "length pre = length pre2" by simp
  from assms(1) assms(6) have "pre @ (lit @ g @ post) = pre2 @ (lit @ g2 @ post2)" by simp
  with l have "lit @ g @ post = lit @ g2 @ post2" by simp
  then have "g @ post = g2 @ post2" by simp
  then show ?thesis
    by (rule run_prefix_unique) (use assms(3,4,8,9) in auto)
qed

text \<open>The token of a text is unique: \<open>pipeline_token\<close> determines it.\<close>

lemma pipeline_token_unique:
  assumes "pipeline_token t g" and "pipeline_token t g'"
  shows "g = g'"
proof -
  let ?P = "\<lambda>c. c \<in> set ''0123456789abcdef-''"
  from assms(1) obtain pre post where
    a: "t = pre @ ''pipelines/'' @ g @ post" "g \<noteq> []" "\<forall>c \<in> set g. ?P c"
       "post = [] \<or> \<not> ?P (hd post)"
       "\<forall>pre' post'. t = pre' @ ''pipelines/'' @ post' \<and> post' \<noteq> [] \<and> ?P (hd post')
          \<longrightarrow> length pre \<le> length pre'"
    unfolding pipeline_token_def subset_iff by blast
  from assms(2) obtain pre2 post2 where
    b: "t = pre2 @ ''pipelines/'' @ g' @ post2" "g' \<noteq> []" "\<forall>c \<in> set g'. ?P c"
       "post2 = [] \<or> \<not> ?P (hd post2)"
       "\<forall>pre' post'. t = pre' @ ''pipelines/'' @ post' \<and> post' \<noteq> [] \<and> ?P (hd post')
          \<longrightarrow> length pre2 \<le> length pre'"
    unfolding pipeline_token_def subset_iff by blast
  show ?thesis
    by (rule leftmost_run_unique[where P = ?P and lit = "''pipelines/''",
          OF a(1) a(2) a(3) a(4) a(5) b(1) b(2) b(3) b(4) b(5)])
qed

section \<open>Refresh\<close>

lemma refresh_loop_step:
  "refresh_loop client (i # ids) s =
     refresh_loop client ids
       (print (case fst (start_update client i (world s)) of
                  Inr u \<Rightarrow> report_ok
                | Inl e \<Rightarrow> report_error e)
          ((emit (StartUpdate i) (print (''Starting refresh for pipeline: '' @ i) s))
             \<lparr>world := snd (start_update client i (world s))\<rparr>))"
  by (cases "start_update client i (world s)")
     (simp add: Let_def world_emit world_print report_ok_def report_error_def
        split: sum.splits)

lemma refresh_step_state:
  "world (print l ((emit (StartUpdate i) (print a s))\<lparr>world := w\<rparr>)) = w"
  "trace (print (case r of Inr u \<Rightarrow> report_ok | Inl e \<Rightarrow> report_error e)
          ((emit (StartUpdate i) (print (''Starting refresh for pipeline: '' @ i) s))
             \<lparr>world := w\<rparr>)) = trace s @ refresh_events i r"
  by (simp_all add: world_print trace_print trace_emit refresh_events_def)

lemma refresh_loop_run:
  "\<exists>ws rs. length ws = Suc (length ids) \<and> length rs = length ids \<and> ws ! 0 = world s \<and>
     (\<forall>k < length ids. start_update client (ids ! k) (ws ! k) = (rs ! k, ws ! Suc k)) \<and>
     world (refresh_loop client ids s) = ws ! length ids \<and>
     trace (refresh_loop client ids s) =
       trace s @ concat (map (\<lambda>(i, r). refresh_events i r) (zip ids rs))"
proof (induction ids arbitrary: s)
  case Nil
  show ?case by (intro exI[of _ "[world s]"] exI[of _ "[]"]) simp
next
  case (Cons i ids)
  let ?r = "fst (start_update client i (world s))"
  let ?w = "snd (start_update client i (world s))"
  let ?s1 = "print (case ?r of Inr u \<Rightarrow> report_ok | Inl e \<Rightarrow> report_error e)
          ((emit (StartUpdate i) (print (''Starting refresh for pipeline: '' @ i) s))
             \<lparr>world := ?w\<rparr>)"
  have w1: "world ?s1 = ?w" by (rule refresh_step_state(1))
  have t1: "trace ?s1 = trace s @ refresh_events i ?r" by (rule refresh_step_state(2))
  from Cons[of ?s1] obtain ws rs where
    h: "length ws = Suc (length ids)" "length rs = length ids" "ws ! 0 = world ?s1"
       "\<forall>k < length ids. start_update client (ids ! k) (ws ! k) = (rs ! k, ws ! Suc k)"
       "world (refresh_loop client ids ?s1) = ws ! length ids"
       "trace (refresh_loop client ids ?s1) =
          trace ?s1 @ concat (map (\<lambda>(i, r). refresh_events i r) (zip ids rs))"
    by blast
  let ?ws = "world s # ws" and ?rs = "?r # rs"
  have steps: "\<forall>k < length (i # ids).
      start_update client ((i # ids) ! k) (?ws ! k) = (?rs ! k, ?ws ! Suc k)"
  proof (intro allI impI)
    fix k assume k: "k < length (i # ids)"
    show "start_update client ((i # ids) ! k) (?ws ! k) = (?rs ! k, ?ws ! Suc k)"
    proof (cases k)
      case 0
      then show ?thesis using h(3) w1 by simp
    next
      case (Suc j)
      with k have "j < length ids" by simp
      with h(4) Suc show ?thesis by simp
    qed
  qed
  have e: "refresh_loop client (i # ids) s = refresh_loop client ids ?s1"
    by (rule refresh_loop_step)
  have "length ?ws = Suc (length (i # ids))" using h(1) by simp
  moreover have "length ?rs = length (i # ids)" using h(2) by simp
  moreover have "?ws ! 0 = world s" by simp
  moreover note steps
  moreover have "world (refresh_loop client (i # ids) s) = ?ws ! length (i # ids)"
    using h(5) by (simp only: e) simp
  moreover have "trace (refresh_loop client (i # ids) s) =
       trace s @ concat (map (\<lambda>(i, r). refresh_events i r) (zip (i # ids) ?rs))"
    by (simp only: e h(6) t1) simp
  ultimately show ?case by blast
qed

lemma refresh_events_calls:
  "length rs = length ids \<Longrightarrow>
     filter is_start_update (concat (map (\<lambda>(i, r). refresh_events i r) (zip ids rs)))
       = map StartUpdate ids"
  by (induction ids rs rule: list_induct2') (simp_all add: refresh_events_def)

lemma refresh_pipelines_installed:
  "sdk p = Installed client \<Longrightarrow>
     refresh_pipelines p ids s = (Inr (), refresh_loop client ids s)"
  by (simp add: refresh_pipelines_def get_client_def)

section \<open>The loops of main\<close>

lemma discover_results_step:
  assumes "discover_pipeline p v s = (Inr r, s1)"
  shows "discover_results p (v # vs) s =
           (r # fst (discover_results p vs s1), snd (discover_results p vs s1))"
  using assms by (simp split: prod.splits)

lemma collect_loop_step:
  assumes "discover_pipeline p v s = (Inr r, s1)"
  shows "collect_loop p (v # vs) ids s = collect_loop p vs (ids @ resolved [r]) s1"
proof (cases r)
  case None
  with assms show ?thesis by simp
next
  case (Some i)
  with assms have "i \<noteq> []" by (auto dest: discover_pipeline_Some_nonempty)
  with assms Some show ?thesis by (simp add: truthy_def)
qed

lemma resolved_Cons: "resolved (r # rs) = resolved [r] @ resolved rs"
  by (cases r) simp_all

lemma collect_loop_results:
  assumes "sdk p = Installed client"
  shows "collect_loop p views ids s =
           (Inr (ids @ resolved (fst (discover_results p views s))),
            snd (discover_results p views s))"
proof (induction views arbitrary: ids s)
  case Nil
  show ?case by simp
next
  case (Cons v vs)
  from discover_pipeline_total[OF assms, of v s] obtain r s1 where
    d: "discover_pipeline p v s = (Inr r, s1)" by blast
  have "collect_loop p (v # vs) ids s = collect_loop p vs (ids @ resolved [r]) s1"
    by (rule collect_loop_step[OF d])
  also have "\<dots> = (Inr ((ids @ resolved [r]) @ resolved (fst (discover_results p vs s1))),
                      snd (discover_results p vs s1))"
    by (rule Cons)
  also have "\<dots> = (Inr (ids @ resolved (fst (discover_results p (v # vs) s))),
                      snd (discover_results p (v # vs) s))"
    unfolding discover_results_step[OF d] fst_conv snd_conv
    using resolved_Cons[of r "fst (discover_results p vs s1)"] by simp
  finally show ?case .
qed

lemma length_discover_results:
  assumes "sdk p = Installed client"
  shows "length (fst (discover_results p views s)) = length views"
proof (induction views arbitrary: s)
  case Nil
  show ?case by simp
next
  case (Cons v vs)
  from discover_pipeline_total[OF assms, of v s] obtain r s1 where
    d: "discover_pipeline p v s = (Inr r, s1)" by blast
  show ?case by (simp only: discover_results_step[OF d] fst_conv list.size Cons)
qed

lemma discover_loop_results:
  assumes "sdk p = Installed client"
  shows "discover_loop p views s = (Inr (), snd (discover_results p views s))"
proof (induction views arbitrary: s)
  case Nil
  show ?case by simp
next
  case (Cons v vs)
  from discover_pipeline_total[OF assms, of v s] obtain r s1 where
    d: "discover_pipeline p v s = (Inr r, s1)" by blast
  then have "discover_loop p (v # vs) s = discover_loop p vs s1" by simp
  then show ?case by (simp only: discover_results_step[OF d] snd_conv Cons)
qed

lemma main_refresh_eq:
  assumes "views \<noteq> []"
  shows "main p (prog # ''--refresh'' # views) s =
     (case collect_loop p views [] s of
        (Inl a, s1) \<Rightarrow> (Inl a, s1)
      | (Inr pipeline_ids, s1) \<Rightarrow>
          if pipeline_ids \<noteq> [] then refresh_pipelines p pipeline_ids (print [] s1)
          else (Inl (SystemExit 1), print ''No pipelines found to refresh.'' s1))"
  using assms by (cases views) (simp_all add: main_def)

lemma trace_fold_print: "trace (fold print ls s) = trace s @ map Print ls"
  by (induction ls arbitrary: s) (simp_all add: trace_print)

lemma world_fold_print: "world (fold print ls s) = world s"
  by (induction ls arbitrary: s) (simp_all add: world_print)

section \<open>The test double, evaluated\<close>

lemma demo_simps:
  "environ (demo kvs) = map_of kvs" "sdk (demo kvs) = Installed demo_client"
  "str_row (demo kvs) = demo_str"
  by (simp_all add: demo_def demo_env_def)

lemma demo_lookup:
  "get_warehouse_id (demo []) demo_client (print l start)
     = (Inr ''w2'', \<lparr>world = 1, trace = [Print l, WarehousesList]\<rparr>)"
  by (simp add: demo_simps get_warehouse_id_def truthy_def search_warehouse_def match_at_def
        list_warehouses_try_def emit_def print_def demo_client_def start_def)

lemma demo_statement:
  "execute_statement demo_client i (''DESCRIBE EXTENDED '' @ ''main.gold.mv_orders'') t w
     = (Inr \<lparr>result = Some \<lparr>data_array = Some demo_rows\<rparr>\<rparr>, Suc w)"
  by (simp add: demo_client_def)

lemma demo_first:
  "first_pipeline_id demo_str demo_rows = Some ''3f9a7b2c-1111-2222-3333-444455556666''"
  by (simp add: first_pipeline_id_def demo_rows_def demo_str_def search_pipeline_def
        match_at_def is_hex_hyphen_def is_hex_def)

lemma demo_rows_split:
  "demo_rows = [[''Refresh information'', []]] @
     [''Pipeline URL'', ''https://host/pipelines/ (pending)''] # [] @
     [''Latest Refresh'', ''https://host/pipelines/3f9a7b2c-1111-2222-3333-444455556666/updates/7''] #
     [[''Other'', ''pipelines/0000'']]"
  by (simp add: demo_rows_def)

lemma demo_search:
  "search_pipeline (demo_str [''Refresh information'', []]) = None"
  "search_pipeline (demo_str [''Pipeline URL'', ''https://host/pipelines/ (pending)'']) = None"
  "contains ''pipelines/'' (demo_str [''Pipeline URL'', ''https://host/pipelines/ (pending)''])"
  "search_pipeline (demo_str [''Latest Refresh'',
      ''https://host/pipelines/3f9a7b2c-1111-2222-3333-444455556666/updates/7''])
     = Some ''3f9a7b2c-1111-2222-3333-444455556666''"
  by (simp_all add: demo_str_def search_pipeline_def match_at_def is_hex_hyphen_def is_hex_def)

lemma demo_statement_missing:
  "execute_statement demo_client i (''DESCRIBE EXTENDED '' @ ''main.gold.nothere'') t w
     = (Inl (SdkError ''TABLE_OR_VIEW_NOT_FOUND''), Suc w)"
  by (simp add: demo_client_def)

lemma demo_nolist_simps:
  "environ demo_nolist = map_of []" "sdk demo_nolist = Installed demo_client_nolist"
  "str_row demo_nolist = demo_str"
  by (simp_all add: demo_nolist_def demo_env_def)

lemma demo_nolist_lookup:
  "get_warehouse_id demo_nolist demo_client_nolist (print l start)
     = (Inl (ValueError resolution_message), \<lparr>world = 1, trace = [Print l, WarehousesList]\<rparr>)"
  by (simp add: demo_nolist_simps get_warehouse_id_def truthy_def search_warehouse_def match_at_def
        list_warehouses_try_def emit_def print_def demo_client_nolist_def start_def)

lemma demo_nolist_discover:
  "discover_pipeline demo_nolist name \<lparr>world = n, trace = tr\<rparr> =
     (Inr None,
      \<lparr>world = Suc n,
       trace = tr @
        [Print (''Looking up pipeline for: '' @ name), WarehousesList,
         Print (''  Error: '' @ resolution_message), Print [],
         Print ''  Alternatively, run this SQL in Databricks:'',
         Print (''    DESCRIBE EXTENDED '' @ name @ '';''),
         Print ''  Look for 'Refresh information' section -> Pipeline URL contains the pipeline_id'']\<rparr>)"
  by (simp add: discover_pipeline_def get_client_def demo_nolist_simps discover_try_def
        get_warehouse_id_def truthy_def search_warehouse_def match_at_def
        list_warehouses_try_def emit_def print_def demo_client_nolist_def discover_except_def)

lemma demo_discover_missing:
  "discover_pipeline (demo []) ''main.gold.nothere'' \<lparr>world = n, trace = tr\<rparr> =
     (Inr None,
      \<lparr>world = Suc (Suc n),
       trace = tr @
        [Print ''Looking up pipeline for: main.gold.nothere'', WarehousesList,
         ExecuteStatement ''w2'' ''DESCRIBE EXTENDED main.gold.nothere'' ''30s'',
         Print ''  Error: TABLE_OR_VIEW_NOT_FOUND'', Print [],
         Print ''  Alternatively, run this SQL in Databricks:'',
         Print ''    DESCRIBE EXTENDED main.gold.nothere;'',
         Print ''  Look for 'Refresh information' section -> Pipeline URL contains the pipeline_id'']\<rparr>)"
  by (simp add: discover_pipeline_def get_client_def demo_simps discover_try_def
        get_warehouse_id_def truthy_def search_warehouse_def match_at_def
        list_warehouses_try_def emit_def print_def demo_client_def discover_except_def)

lemma demo_discover_orders:
  "discover_pipeline (demo []) ''main.gold.mv_orders'' \<lparr>world = n, trace = tr\<rparr> =
     (Inr (Some ''3f9a7b2c-1111-2222-3333-444455556666''),
      \<lparr>world = Suc (Suc n),
       trace = tr @
        [Print ''Looking up pipeline for: main.gold.mv_orders'', WarehousesList,
         ExecuteStatement ''w2'' ''DESCRIBE EXTENDED main.gold.mv_orders'' ''30s'',
         Print ''  Found pipeline ID: 3f9a7b2c-1111-2222-3333-444455556666'']\<rparr>)"
  by (simp add: discover_pipeline_def get_client_def demo_simps discover_try_def
        get_warehouse_id_def truthy_def search_warehouse_def match_at_def
        list_warehouses_try_def emit_def print_def demo_client_def
        scan_response_first response_rows_def demo_first)

lemma demo_start_update:
  "start_update demo_client ''p1'' w = (Inl (SdkError ''no such pipeline''), Suc w)"
  "start_update demo_client ''p2'' w = (Inr (), Suc w)"
  by (simp_all add: demo_client_def)

section \<open>The claims\<close>

text \<open>
  Claim C2, as amended. \<^verbatim>\<open>_get_warehouse_id\<close> resolves in this order, the first match
  winning: (1) the value of \<^verbatim>\<open>DATABRICKS_WAREHOUSE_ID\<close> when it is set to a non-empty
  string, returned with no listing of warehouses (state and trace unchanged); (2) else the
  identifier that the pattern \<^verbatim>\<open>/warehouses/([a-f0-9]+)\<close> finds in
  \<^verbatim>\<open>DATABRICKS_HTTP_PATH\<close>, again with no listing; (3) else, when the listing returns,
  the first warehouse whose state is RUNNING, or the first warehouse of the list when none
  is running (the resolution error when the list is empty), after exactly one listing.
\<close>

theorem get_warehouse_id_priority:
  "(\<forall>i. environ p ''DATABRICKS_WAREHOUSE_ID'' = Some i \<and> i \<noteq> [] \<longrightarrow>
        get_warehouse_id p client s = (Inr i, s)) \<and>
   (\<forall>g. \<not> truthy (environ p ''DATABRICKS_WAREHOUSE_ID'') \<and>
        search_warehouse (http_path_of p) = Some g \<longrightarrow>
        get_warehouse_id p client s = (Inr g, s)) \<and>
   (\<forall>whs w. no_override p \<and> warehouses_list client (world s) = (Inr whs, w) \<longrightarrow>
        fst (get_warehouse_id p client s) =
          (case filter running whs of
             wh # _ \<Rightarrow> Inr (wh_id wh)
           | [] \<Rightarrow> (case whs of
                      [] \<Rightarrow> Inl (ValueError resolution_message)
                    | wh # _ \<Rightarrow> Inr (wh_id wh))) \<and>
        trace (snd (get_warehouse_id p client s)) = trace s @ [WarehousesList])"
proof (intro conjI allI impI)
  fix i assume "environ p ''DATABRICKS_WAREHOUSE_ID'' = Some i \<and> i \<noteq> []"
  then show "get_warehouse_id p client s = (Inr i, s)"
    by (simp add: get_warehouse_id_env)
next
  fix g assume "\<not> truthy (environ p ''DATABRICKS_WAREHOUSE_ID'') \<and>
        search_warehouse (http_path_of p) = Some g"
  then show "get_warehouse_id p client s = (Inr g, s)"
    by (simp add: get_warehouse_id_path)
next
  fix whs w assume a: "no_override p \<and> warehouses_list client (world s) = (Inr whs, w)"
  then have e: "get_warehouse_id p client s =
      ((case pick_warehouse whs of None \<Rightarrow> Inl (ValueError resolution_message) | Some i \<Rightarrow> Inr i),
       (emit WarehousesList s)\<lparr>world := w\<rparr>)"
    using get_warehouse_id_list[of p client s "Inr whs" w] by simp
  show "fst (get_warehouse_id p client s) =
          (case filter running whs of
             wh # _ \<Rightarrow> Inr (wh_id wh)
           | [] \<Rightarrow> (case whs of
                      [] \<Rightarrow> Inl (ValueError resolution_message)
                    | wh # _ \<Rightarrow> Inr (wh_id wh)))"
    by (simp add: e pick_warehouse_def split: list.splits)
  show "trace (snd (get_warehouse_id p client s)) = trace s @ [WarehousesList]"
    by (simp add: e trace_emit)
qed

theorem get_warehouse_id_priority_witness:
  "get_warehouse_id (demo [(''DATABRICKS_WAREHOUSE_ID'', ''abc123'')]) demo_client start
     = (Inr ''abc123'', start) \<and>
   get_warehouse_id (demo [(''DATABRICKS_HTTP_PATH'', ''/sql/1.0/warehouses/abc123'')]) demo_client start
     = (Inr ''abc123'', start) \<and>
   fst (get_warehouse_id (demo []) demo_client start) = Inr ''w2'' \<and>
   trace (snd (get_warehouse_id (demo []) demo_client start)) = [WarehousesList]"
proof -
  let ?p1 = "demo [(''DATABRICKS_WAREHOUSE_ID'', ''abc123'')]"
  let ?p2 = "demo [(''DATABRICKS_HTTP_PATH'', ''/sql/1.0/warehouses/abc123'')]"
  let ?p3 = "demo []"
  have h1: "environ ?p1 ''DATABRICKS_WAREHOUSE_ID'' = Some ''abc123'' \<and> ''abc123'' \<noteq> []"
    by (simp add: demo_simps)
  have h2: "\<not> truthy (environ ?p2 ''DATABRICKS_WAREHOUSE_ID'') \<and>
        search_warehouse (http_path_of ?p2) = Some ''abc123''"
    by (simp add: demo_simps truthy_def http_path_of_def search_warehouse_def match_at_def is_hex_def)
  have h3: "no_override ?p3 \<and> warehouses_list demo_client (world start) =
       (Inr [\<lparr>wh_id = ''w1'', wh_state = Some ''STOPPED''\<rparr>,
             \<lparr>wh_id = ''w2'', wh_state = Some ''RUNNING''\<rparr>], Suc 0)"
    by (simp add: demo_simps no_override_def truthy_def http_path_of_def search_warehouse_def
          match_at_def demo_client_def start_def)
  from get_warehouse_id_priority[of ?p1 demo_client start] h1
  have c1: "get_warehouse_id ?p1 demo_client start = (Inr ''abc123'', start)" by blast
  from get_warehouse_id_priority[of ?p2 demo_client start] h2
  have c2: "get_warehouse_id ?p2 demo_client start = (Inr ''abc123'', start)" by blast
  from get_warehouse_id_priority[of ?p3 demo_client start] h3
  have c3: "fst (get_warehouse_id ?p3 demo_client start) =
          (case filter running [\<lparr>wh_id = ''w1'', wh_state = Some ''STOPPED''\<rparr>,
             \<lparr>wh_id = ''w2'', wh_state = Some ''RUNNING''\<rparr>] of
             wh # _ \<Rightarrow> Inr (wh_id wh)
           | [] \<Rightarrow> (case [\<lparr>wh_id = ''w1'', wh_state = Some ''STOPPED''\<rparr>,
             \<lparr>wh_id = ''w2'', wh_state = Some ''RUNNING''\<rparr>] of
                      [] \<Rightarrow> Inl (ValueError resolution_message)
                    | wh # _ \<Rightarrow> Inr (wh_id wh))) \<and>
        trace (snd (get_warehouse_id ?p3 demo_client start)) = trace start @ [WarehousesList]"
    by blast
  from c3 have c3': "fst (get_warehouse_id ?p3 demo_client start) = Inr ''w2''"
    by (simp add: running_def)
  from c3 have c4: "trace (snd (get_warehouse_id ?p3 demo_client start)) = [WarehousesList]"
    by (simp add: start_def)
  from c1 c2 c3' c4 show ?thesis by blast
qed

text \<open>
  Claim C2 as stated fails: a \<^verbatim>\<open>DATABRICKS_WAREHOUSE_ID\<close> that is set, but to the
  empty string, is not returned; the warehouses are listed and the running one is chosen.
\<close>

theorem get_warehouse_id_empty_override:
  "environ (demo [(''DATABRICKS_WAREHOUSE_ID'', [])]) ''DATABRICKS_WAREHOUSE_ID'' = Some [] \<and>
   get_warehouse_id (demo [(''DATABRICKS_WAREHOUSE_ID'', [])]) demo_client start
     = (Inr ''w2'', \<lparr>world = 1, trace = [WarehousesList]\<rparr>)"
  by (simp add: demo_simps get_warehouse_id_def truthy_def search_warehouse_def match_at_def
        list_warehouses_try_def emit_def demo_client_def start_def)

text \<open>
  Claim C7. \<^verbatim>\<open>_get_warehouse_id\<close> raises exactly when no environment override
  resolves a warehouse and the listing of warehouses raises or returns an empty list. The
  exception is then the \<^verbatim>\<open>ValueError\<close> whose message tells the operator to set
  \<^verbatim>\<open>DATABRICKS_WAREHOUSE_ID\<close> or \<^verbatim>\<open>DATABRICKS_HTTP_PATH\<close>. In every other case the
  function returns an identifier.
\<close>

theorem get_warehouse_id_raises_iff:
  "((\<exists>e. fst (get_warehouse_id p client s) = Inl e) \<longleftrightarrow>
      no_override p \<and>
      (case fst (warehouses_list client (world s)) of Inl e \<Rightarrow> True | Inr whs \<Rightarrow> whs = [])) \<and>
   (\<forall>e. fst (get_warehouse_id p client s) = Inl e \<longrightarrow>
      e = ValueError resolution_message \<and>
      contains ''Set DATABRICKS_WAREHOUSE_ID or DATABRICKS_HTTP_PATH'' (str_exn e)) \<and>
   ((\<exists>e. fst (get_warehouse_id p client s) = Inl e) \<or>
    (\<exists>i. fst (get_warehouse_id p client s) = Inr i))"
proof -
  have msg: "contains ''Set DATABRICKS_WAREHOUSE_ID or DATABRICKS_HTTP_PATH'' resolution_message"
    by (simp add: resolution_message_def)
  show ?thesis
  proof (cases "no_override p")
    case False
    from get_warehouse_id_override[OF False, of client s]
    obtain i where "get_warehouse_id p client s = (Inr i, s)" by blast
    with False show ?thesis by simp
  next
    case True
    obtain r w where rw: "warehouses_list client (world s) = (r, w)"
      by (cases "warehouses_list client (world s)")
    note e = get_warehouse_id_list[OF True rw]
    show ?thesis
    proof (cases r)
      case (Inl x)
      with e rw True msg show ?thesis by simp
    next
      case (Inr whs)
      show ?thesis
      proof (cases "pick_warehouse whs")
        case None
        then have "whs = []" by (simp add: pick_warehouse_None)
        with e rw True msg Inr None show ?thesis by simp
      next
        case (Some i)
        then have "whs \<noteq> []" using pick_warehouse_None[of whs] by auto
        with e rw True Inr Some show ?thesis by simp
      qed
    qed
  qed
qed

theorem get_warehouse_id_raises_iff_witness:
  "fst (get_warehouse_id demo_nolist demo_client_nolist start) = Inl (ValueError resolution_message) \<and>
   contains ''Set DATABRICKS_WAREHOUSE_ID or DATABRICKS_HTTP_PATH'' resolution_message \<and>
   no_override demo_nolist \<and>
   fst (warehouses_list demo_client_nolist (world start)) = Inl (SdkError ''PERMISSION_DENIED'')"
proof -
  have h: "no_override demo_nolist"
    by (simp add: demo_nolist_def demo_env_def no_override_def truthy_def http_path_of_def
          search_warehouse_def match_at_def)
  have l: "fst (warehouses_list demo_client_nolist (world start)) = Inl (SdkError ''PERMISSION_DENIED'')"
    by (simp add: demo_client_nolist_def)
  from get_warehouse_id_raises_iff[of demo_nolist demo_client_nolist start] h l
  obtain e where e: "fst (get_warehouse_id demo_nolist demo_client_nolist start) = Inl e"
    by auto
  with get_warehouse_id_raises_iff[of demo_nolist demo_client_nolist start]
  have "e = ValueError resolution_message \<and>
      contains ''Set DATABRICKS_WAREHOUSE_ID or DATABRICKS_HTTP_PATH'' (str_exn e)" by blast
  with e h l show ?thesis by auto
qed

text \<open>
  Claim C9. With \<^verbatim>\<open>DATABRICKS_WAREHOUSE_ID\<close> set to the empty string,
  \<^verbatim>\<open>_get_warehouse_id\<close> does exactly what it does with the variable unset: it goes on
  to the HTTP path and then to the listing. Hence an identifier returned from the
  environment, that is with no listing recorded in the trace, is never empty.
\<close>

theorem get_warehouse_id_empty_is_unset:
  "(environ p ''DATABRICKS_WAREHOUSE_ID'' = Some [] \<longrightarrow>
      get_warehouse_id p client s =
        get_warehouse_id (p\<lparr>environ := (environ p)(''DATABRICKS_WAREHOUSE_ID'' := None)\<rparr>) client s) \<and>
   (\<forall>i s'. get_warehouse_id p client s = (Inr i, s') \<and> trace s' = trace s \<longrightarrow> i \<noteq> [])"
proof (intro conjI allI impI)
  assume "environ p ''DATABRICKS_WAREHOUSE_ID'' = Some []"
  then show "get_warehouse_id p client s =
        get_warehouse_id (p\<lparr>environ := (environ p)(''DATABRICKS_WAREHOUSE_ID'' := None)\<rparr>) client s"
    by (simp add: get_warehouse_id_def truthy_def)
next
  fix i s' assume a: "get_warehouse_id p client s = (Inr i, s') \<and> trace s' = trace s"
  show "i \<noteq> []"
  proof (cases "no_override p")
    case False
    from get_warehouse_id_override[OF False, of client s] a show ?thesis by auto
  next
    case True
    obtain r w where rw: "warehouses_list client (world s) = (r, w)"
      by (cases "warehouses_list client (world s)")
    from get_warehouse_id_list[OF True rw] a
    have "trace ((emit WarehousesList s)\<lparr>world := w\<rparr>) = trace s" by simp
    then show ?thesis by (simp add: trace_emit)
  qed
qed

theorem get_warehouse_id_empty_is_unset_witness:
  "get_warehouse_id (demo [(''DATABRICKS_WAREHOUSE_ID'', []), (''DATABRICKS_HTTP_PATH'', ''/sql/1.0/warehouses/abc123'')]) demo_client start =
     get_warehouse_id (demo [(''DATABRICKS_HTTP_PATH'', ''/sql/1.0/warehouses/abc123'')]) demo_client start \<and>
   get_warehouse_id (demo [(''DATABRICKS_HTTP_PATH'', ''/sql/1.0/warehouses/abc123'')]) demo_client start
     = (Inr ''abc123'', start) \<and> ''abc123'' \<noteq> []"
proof -
  let ?p = "demo [(''DATABRICKS_WAREHOUSE_ID'', []), (''DATABRICKS_HTTP_PATH'', ''/sql/1.0/warehouses/abc123'')]"
  let ?q = "demo [(''DATABRICKS_HTTP_PATH'', ''/sql/1.0/warehouses/abc123'')]"
  have h: "environ ?p ''DATABRICKS_WAREHOUSE_ID'' = Some []" by (simp add: demo_simps)
  have u: "?p\<lparr>environ := (environ ?p)(''DATABRICKS_WAREHOUSE_ID'' := None)\<rparr> = ?q"
    by (auto simp: demo_def demo_env_def)
  have v: "get_warehouse_id ?q demo_client start = (Inr ''abc123'', start)"
    by (simp add: demo_simps get_warehouse_id_def truthy_def search_warehouse_def match_at_def is_hex_def)
  from get_warehouse_id_empty_is_unset[of ?p demo_client start] h u
  have "get_warehouse_id ?p demo_client start = get_warehouse_id ?q demo_client start" by simp
  moreover from get_warehouse_id_empty_is_unset[of ?q demo_client start] v
  have "''abc123'' \<noteq> []" by simp
  ultimately show ?thesis using v by simp
qed

text \<open>
  Claim C1. When the client is available, the warehouse resolves and
  \<^verbatim>\<open>execute_statement\<close> returns a result, \<^verbatim>\<open>discover_pipeline\<close> returns the
  identifier of the first row, in row order, whose text (\<^verbatim>\<open>str(row)\<close>) has
  \<^verbatim>\<open>pipelines/\<close> followed by a non-empty run of lowercase hex digits and hyphens; the
  identifier is that run, at the leftmost such place of the row and as long as it goes. It
  returns \<^verbatim>\<open>None\<close> when the result carries no rows or no row has such a match.
\<close>

theorem discover_pipeline_first_match:
  assumes "sdk p = Installed client"
    and "get_warehouse_id p client (print (''Looking up pipeline for: '' @ name) s) = (Inr i, s1)"
    and "execute_statement client i (''DESCRIBE EXTENDED '' @ name) ''30s'' (world s1)
           = (Inr resp, w)"
  shows "fst (discover_pipeline p name s)
           = Inr (first_pipeline_id (str_row p) (response_rows resp)) \<and>
         ((\<forall>row \<in> set (response_rows resp). \<not> has_pipeline_token (str_row p row)) \<longrightarrow>
            fst (discover_pipeline p name s) = Inr None) \<and>
         (\<forall>before row after.
            response_rows resp = before @ row # after \<and>
            (\<forall>x \<in> set before. \<not> has_pipeline_token (str_row p x)) \<and>
            has_pipeline_token (str_row p row) \<longrightarrow>
            (\<exists>g. fst (discover_pipeline p name s) = Inr (Some g) \<and>
                 pipeline_token (str_row p row) g))"
proof -
  have r: "fst (discover_pipeline p name s)
             = Inr (first_pipeline_id (str_row p) (response_rows resp))"
    by (simp only: discover_pipeline_installed[OF assms(1)]
          discover_try_returns[OF assms(2,3)] scan_response_first
          prod.case sum.case fst_conv)
  have n: "first_pipeline_id (str_row p) (response_rows resp) = None"
    if "\<forall>row \<in> set (response_rows resp). \<not> has_pipeline_token (str_row p row)"
    using that by (simp add: first_pipeline_id_None has_pipeline_token_iff)
  have f: "\<exists>g. first_pipeline_id (str_row p) (response_rows resp) = Some g \<and>
             pipeline_token (str_row p row) g"
    if rows: "response_rows resp = before @ row # after"
      and before: "\<forall>x \<in> set before. \<not> has_pipeline_token (str_row p x)"
      and row: "has_pipeline_token (str_row p row)"
    for before row after
  proof -
    from row obtain g where g: "search_pipeline (str_row p row) = Some g"
      by (auto simp: has_pipeline_token_iff)
    from before have "\<forall>x \<in> set before. search_pipeline (str_row p x) = None"
      by (simp add: has_pipeline_token_iff)
    from first_pipeline_id_append[OF this g, of after] rows
    have "first_pipeline_id (str_row p) (response_rows resp) = Some g" by simp
    with search_pipeline_token[OF g] show ?thesis by blast
  qed
  show ?thesis
  proof (intro conjI allI impI)
    show "fst (discover_pipeline p name s)
            = Inr (first_pipeline_id (str_row p) (response_rows resp))" by (rule r)
  next
    assume "\<forall>row \<in> set (response_rows resp). \<not> has_pipeline_token (str_row p row)"
    from n[OF this] r show "fst (discover_pipeline p name s) = Inr None" by simp
  next
    fix before row after
    assume a: "response_rows resp = before @ row # after \<and>
            (\<forall>x \<in> set before. \<not> has_pipeline_token (str_row p x)) \<and>
            has_pipeline_token (str_row p row)"
    then have "\<exists>g. first_pipeline_id (str_row p) (response_rows resp) = Some g \<and>
             pipeline_token (str_row p row) g"
      by (intro f[of before row after]) simp_all
    with r show "\<exists>g. fst (discover_pipeline p name s) = Inr (Some g) \<and>
                 pipeline_token (str_row p row) g" by simp
  qed
qed

theorem discover_pipeline_first_match_witness:
  "fst (discover_pipeline (demo []) ''main.gold.mv_orders'' start)
     = Inr (Some ''3f9a7b2c-1111-2222-3333-444455556666'') \<and>
   \<not> has_pipeline_token (demo_str [''Refresh information'', []]) \<and>
   \<not> has_pipeline_token (demo_str [''Pipeline URL'', ''https://host/pipelines/ (pending)'']) \<and>
   pipeline_token
     (demo_str [''Latest Refresh'',
        ''https://host/pipelines/3f9a7b2c-1111-2222-3333-444455556666/updates/7''])
     ''3f9a7b2c-1111-2222-3333-444455556666''"
proof -
  let ?good = "[''Latest Refresh'',
        ''https://host/pipelines/3f9a7b2c-1111-2222-3333-444455556666/updates/7'']"
  have rows: "response_rows \<lparr>result = Some \<lparr>data_array = Some demo_rows\<rparr>\<rparr> =
     [[''Refresh information'', []], [''Pipeline URL'', ''https://host/pipelines/ (pending)'']]
       @ ?good # [[''Other'', ''pipelines/0000'']]"
    by (simp add: response_rows_def demo_rows_def)
  have n1: "\<not> has_pipeline_token (demo_str [''Refresh information'', []])"
    and n2: "\<not> has_pipeline_token (demo_str [''Pipeline URL'', ''https://host/pipelines/ (pending)''])"
    and h: "has_pipeline_token (demo_str ?good)"
    by (simp_all only: has_pipeline_token_iff demo_search) simp_all
  note t = discover_pipeline_first_match[of "demo []" demo_client "''main.gold.mv_orders''" start,
      OF demo_simps(2) demo_lookup demo_statement]
  from t have "fst (discover_pipeline (demo []) ''main.gold.mv_orders'' start)
          = Inr (first_pipeline_id (str_row (demo []))
              (response_rows \<lparr>result = Some \<lparr>data_array = Some demo_rows\<rparr>\<rparr>))"
    by (rule conjunct1)
  then have v: "fst (discover_pipeline (demo []) ''main.gold.mv_orders'' start)
     = Inr (Some ''3f9a7b2c-1111-2222-3333-444455556666'')"
    by (simp add: response_rows_def demo_simps demo_first)
  have b: "\<forall>x \<in> set [[''Refresh information'', []],
               [''Pipeline URL'', ''https://host/pipelines/ (pending)'']].
             \<not> has_pipeline_token (str_row (demo []) x)"
    using n1 n2 by (simp add: demo_simps)
  have h': "has_pipeline_token (str_row (demo []) ?good)"
    using h by (simp only: demo_simps)
  have "\<exists>g. fst (discover_pipeline (demo []) ''main.gold.mv_orders'' start) = Inr (Some g) \<and>
          pipeline_token (str_row (demo []) ?good) g"
    by (rule t[THEN conjunct2, THEN conjunct2, rule_format,
          where before = "[[''Refresh information'', []],
               [''Pipeline URL'', ''https://host/pipelines/ (pending)'']]"
            and after = "[[''Other'', ''pipelines/0000'']]",
          OF conjI[OF rows conjI[OF b h']]])
  with v have "pipeline_token (demo_str ?good) ''3f9a7b2c-1111-2222-3333-444455556666''"
    by (simp add: demo_simps)
  with v n1 n2 show ?thesis by blast
qed

text \<open>
  Claim C10. A row whose text contains \<^verbatim>\<open>pipelines/\<close>, with no occurrence of it
  followed by a character of \<^verbatim>\<open>[a-f0-9-]\<close>, does not end the scan: a later row with
  a well-formed identifier, the first such row, still gives that identifier.
\<close>

theorem discover_pipeline_skips_unmatched_row:
  assumes "sdk p = Installed client"
    and "get_warehouse_id p client (print (''Looking up pipeline for: '' @ name) s) = (Inr i, s1)"
    and "execute_statement client i (''DESCRIBE EXTENDED '' @ name) ''30s'' (world s1)
           = (Inr resp, w)"
    and "response_rows resp = before @ bad # between @ good # after"
    and "\<forall>row \<in> set (before @ between). search_pipeline (str_row p row) = None"
    and "contains ''pipelines/'' (str_row p bad)"
    and "\<forall>pre post. str_row p bad = pre @ ''pipelines/'' @ post \<longrightarrow>
           post = [] \<or> \<not> is_hex_hyphen (hd post)"
    and "search_pipeline (str_row p good) = Some pipeline_id"
  shows "fst (discover_pipeline p name s) = Inr (Some pipeline_id)"
proof -
  from assms(7) have bad: "search_pipeline (str_row p bad) = None"
    unfolding search_pipeline_def by (simp only: re_search_None_occurrences)
  with assms(5) have "\<forall>row \<in> set (before @ bad # between). search_pipeline (str_row p row) = None"
    by auto
  from first_pipeline_id_append[OF this assms(8), of after] assms(4)
  have "first_pipeline_id (str_row p) (response_rows resp) = Some pipeline_id" by simp
  moreover have "fst (discover_pipeline p name s)
             = Inr (scan_response (str_row p) resp)"
    by (simp only: discover_pipeline_installed[OF assms(1)]
          discover_try_returns[OF assms(2,3)] prod.case sum.case fst_conv)
  ultimately show ?thesis by (simp add: scan_response_first)
qed

theorem discover_pipeline_skips_unmatched_row_witness:
  "contains ''pipelines/'' (demo_str [''Pipeline URL'', ''https://host/pipelines/ (pending)'']) \<and>
   search_pipeline (demo_str [''Pipeline URL'', ''https://host/pipelines/ (pending)'']) = None \<and>
   fst (discover_pipeline (demo []) ''main.gold.mv_orders'' start)
     = Inr (Some ''3f9a7b2c-1111-2222-3333-444455556666'')"
proof -
  let ?bad = "[''Pipeline URL'', ''https://host/pipelines/ (pending)'']"
  have rows: "response_rows \<lparr>result = Some \<lparr>data_array = Some demo_rows\<rparr>\<rparr> =
     [[''Refresh information'', []]] @ ?bad # [] @
     [''Latest Refresh'', ''https://host/pipelines/3f9a7b2c-1111-2222-3333-444455556666/updates/7''] #
     [[''Other'', ''pipelines/0000'']]"
    by (simp only: response_rows_def demo_rows_split[symmetric]) simp
  have others: "\<forall>row \<in> set ([[''Refresh information'', []]] @ []).
      search_pipeline (str_row (demo []) row) = None"
    by (simp add: demo_simps demo_search)
  have sub: "contains ''pipelines/'' (str_row (demo []) ?bad)"
    by (simp only: demo_simps demo_search)
  have occ: "\<forall>pre post. str_row (demo []) ?bad = pre @ ''pipelines/'' @ post \<longrightarrow>
           post = [] \<or> \<not> is_hex_hyphen (hd post)"
    using demo_search(2)
    by (simp only: demo_simps search_pipeline_def re_search_None_occurrences)
  have good: "search_pipeline (str_row (demo []) [''Latest Refresh'',
      ''https://host/pipelines/3f9a7b2c-1111-2222-3333-444455556666/updates/7''])
     = Some ''3f9a7b2c-1111-2222-3333-444455556666''"
    by (simp only: demo_simps demo_search)
  from discover_pipeline_skips_unmatched_row[OF demo_simps(2) demo_lookup demo_statement
      rows others sub occ good]
  show ?thesis by (simp only: demo_search simp_thms)
qed

text \<open>
  Claim C4. Whatever exception \<^verbatim>\<open>execute_statement\<close> raises,
  \<^verbatim>\<open>discover_pipeline\<close> catches it, prints its message after \<^verbatim>\<open>Error:\<close> with the
  hint lines, and returns \<^verbatim>\<open>None\<close>; so both loops of \<^verbatim>\<open>main\<close>, the one of
  \<^verbatim>\<open>--discover\<close> and the one of \<^verbatim>\<open>--refresh\<close>, go on with the views that follow.
\<close>

theorem discover_pipeline_catches_statement_error:
  assumes "sdk p = Installed client"
    and "get_warehouse_id p client (print (''Looking up pipeline for: '' @ name) s) = (Inr i, s1)"
    and "execute_statement client i (''DESCRIBE EXTENDED '' @ name) ''30s'' (world s1)
           = (Inl e, w)"
  shows "fst (discover_pipeline p name s) = Inr None \<and>
         trace (snd (discover_pipeline p name s)) =
           trace s1 @
           [ExecuteStatement i (''DESCRIBE EXTENDED '' @ name) ''30s'',
            Print (''  Error: '' @ str_exn e), Print [],
            Print ''  Alternatively, run this SQL in Databricks:'',
            Print (''    DESCRIBE EXTENDED '' @ name @ '';''),
            Print ''  Look for 'Refresh information' section -> Pipeline URL contains the pipeline_id''] \<and>
         discover_loop p (name # views) s =
           discover_loop p views (snd (discover_pipeline p name s)) \<and>
         collect_loop p (name # views) ids s =
           collect_loop p views ids (snd (discover_pipeline p name s))"
proof -
  have d: "discover_pipeline p name s =
      (Inr None, discover_except name e
         ((emit (ExecuteStatement i (''DESCRIBE EXTENDED '' @ name) ''30s'') s1)\<lparr>world := w\<rparr>))"
    by (simp only: discover_pipeline_installed[OF assms(1)]
          discover_try_raises[OF assms(2,3)] prod.case sum.case)
  then have r: "fst (discover_pipeline p name s) = Inr None" by simp
  have t: "trace (snd (discover_pipeline p name s)) =
           trace s1 @
           [ExecuteStatement i (''DESCRIBE EXTENDED '' @ name) ''30s'',
            Print (''  Error: '' @ str_exn e), Print [],
            Print ''  Alternatively, run this SQL in Databricks:'',
            Print (''    DESCRIBE EXTENDED '' @ name @ '';''),
            Print ''  Look for 'Refresh information' section -> Pipeline URL contains the pipeline_id'']"
    by (simp add: d trace_discover_except trace_emit)
  from r t discover_loop_step[OF r] collect_loop_None[OF r] show ?thesis by blast
qed

theorem discover_pipeline_catches_statement_error_witness:
  "fst (discover_pipeline (demo []) ''main.gold.nothere'' start) = Inr None \<and>
   trace (snd (discover_pipeline (demo []) ''main.gold.nothere'' start)) =
     [Print ''Looking up pipeline for: main.gold.nothere'', WarehousesList,
      ExecuteStatement ''w2'' ''DESCRIBE EXTENDED main.gold.nothere'' ''30s'',
      Print ''  Error: TABLE_OR_VIEW_NOT_FOUND'', Print [],
      Print ''  Alternatively, run this SQL in Databricks:'',
      Print ''    DESCRIBE EXTENDED main.gold.nothere;'',
      Print ''  Look for 'Refresh information' section -> Pipeline URL contains the pipeline_id''] \<and>
   discover_loop (demo []) [''main.gold.nothere'', ''main.gold.mv_orders''] start =
     discover_loop (demo []) [''main.gold.mv_orders'']
       (snd (discover_pipeline (demo []) ''main.gold.nothere'' start)) \<and>
   collect_loop (demo []) [''main.gold.nothere'', ''main.gold.mv_orders''] [] start =
     collect_loop (demo []) [''main.gold.mv_orders''] []
       (snd (discover_pipeline (demo []) ''main.gold.nothere'' start))"
  using discover_pipeline_catches_statement_error[where views = "[''main.gold.mv_orders'']"
      and ids = "[]", OF demo_simps(2) demo_lookup demo_statement_missing]
  by simp

text \<open>
  Claim C3, as amended. When warehouse resolution fails, its error is raised inside the
  \<^verbatim>\<open>try\<close> block of \<^verbatim>\<open>discover_pipeline\<close> (the call is an argument of
  \<^verbatim>\<open>execute_statement\<close>) and is caught there: the message is printed,
  \<^verbatim>\<open>execute_statement\<close> is never called, \<^verbatim>\<open>None\<close> is returned, and a batch of
  views goes on with the views that follow.
\<close>

theorem discover_pipeline_catches_resolution_error:
  assumes "sdk p = Installed client"
    and "get_warehouse_id p client (print (''Looking up pipeline for: '' @ name) s) = (Inl e, s1)"
  shows "e = ValueError resolution_message \<and>
         fst (discover_pipeline p name s) = Inr None \<and>
         trace (snd (discover_pipeline p name s)) =
           trace s @
           [Print (''Looking up pipeline for: '' @ name), WarehousesList,
            Print (''  Error: '' @ resolution_message), Print [],
            Print ''  Alternatively, run this SQL in Databricks:'',
            Print (''    DESCRIBE EXTENDED '' @ name @ '';''),
            Print ''  Look for 'Refresh information' section -> Pipeline URL contains the pipeline_id''] \<and>
         discover_loop p (name # views) s =
           discover_loop p views (snd (discover_pipeline p name s)) \<and>
         collect_loop p (name # views) ids s =
           collect_loop p views ids (snd (discover_pipeline p name s))"
proof -
  from get_warehouse_id_Inl[OF assms(2)]
  have e: "e = ValueError resolution_message"
    and t1: "trace s1 = trace (print (''Looking up pipeline for: '' @ name) s) @ [WarehousesList]"
    by simp_all
  have d: "discover_pipeline p name s = (Inr None, discover_except name e s1)"
    by (simp only: discover_pipeline_installed[OF assms(1)]
          discover_try_unresolved[OF assms(2)] prod.case sum.case)
  then have r: "fst (discover_pipeline p name s) = Inr None" by simp
  have t: "trace (snd (discover_pipeline p name s)) =
           trace s @
           [Print (''Looking up pipeline for: '' @ name), WarehousesList,
            Print (''  Error: '' @ resolution_message), Print [],
            Print ''  Alternatively, run this SQL in Databricks:'',
            Print (''    DESCRIBE EXTENDED '' @ name @ '';''),
            Print ''  Look for 'Refresh information' section -> Pipeline URL contains the pipeline_id'']"
    by (simp add: d trace_discover_except t1 trace_print e)
  from e r t discover_loop_step[OF r] collect_loop_None[OF r] show ?thesis by blast
qed

theorem discover_pipeline_catches_resolution_error_witness:
  "fst (discover_pipeline demo_nolist ''a'' start) = Inr None \<and>
   trace (snd (discover_pipeline demo_nolist ''a'' start)) =
     [Print ''Looking up pipeline for: a'', WarehousesList,
      Print (''  Error: '' @ resolution_message), Print [],
      Print ''  Alternatively, run this SQL in Databricks:'',
      Print ''    DESCRIBE EXTENDED a;'',
      Print ''  Look for 'Refresh information' section -> Pipeline URL contains the pipeline_id''] \<and>
   discover_loop demo_nolist [''a'', ''b''] start =
     discover_loop demo_nolist [''b''] (snd (discover_pipeline demo_nolist ''a'' start))"
  using discover_pipeline_catches_resolution_error[where views = "[''b'']" and ids = "[]",
      OF demo_nolist_simps(2) demo_nolist_lookup]
  by (simp add: start_def)

text \<open>
  Claim C3 as stated fails: with no override and a listing that raises, resolution fails,
  yet discovery returns \<^verbatim>\<open>None\<close> and \<^verbatim>\<open>--discover a b\<close> still looks up
  \<^verbatim>\<open>b\<close> and returns.
\<close>

theorem resolution_error_is_caught:
  "fst (get_warehouse_id demo_nolist demo_client_nolist start) = Inl (ValueError resolution_message) \<and>
   fst (discover_pipeline demo_nolist ''a'' start) = Inr None \<and>
   fst (main demo_nolist [''refresh_metric_views.py'', ''--discover'', ''a'', ''b''] start) = Inr () \<and>
   Print ''Looking up pipeline for: b''
     \<in> set (trace (snd (main demo_nolist [''refresh_metric_views.py'', ''--discover'', ''a'', ''b''] start)))"
proof -
  have 1: "fst (get_warehouse_id demo_nolist demo_client_nolist start) = Inl (ValueError resolution_message)"
    by (simp add: demo_nolist_simps get_warehouse_id_def truthy_def search_warehouse_def match_at_def
        list_warehouses_try_def emit_def demo_client_nolist_def start_def)
  have 2: "fst (discover_pipeline demo_nolist ''a'' start) = Inr None"
    by (simp add: start_def demo_nolist_discover)
  have 3: "main demo_nolist [''refresh_metric_views.py'', ''--discover'', ''a'', ''b''] start =
     discover_loop demo_nolist [''a'', ''b''] start"
    by (simp add: main_def)
  have 4: "discover_loop demo_nolist [''a'', ''b''] start =
     (Inr (), snd (discover_pipeline demo_nolist ''b'' (snd (discover_pipeline demo_nolist ''a'' start))))"
    by (simp add: start_def demo_nolist_discover)
  show ?thesis
    by (simp add: 1 2 3 4) (simp add: start_def demo_nolist_discover)
qed

text \<open>
  Claim C6. With the client available, \<^verbatim>\<open>refresh_pipelines\<close> calls
  \<^verbatim>\<open>start_update\<close> once for each identifier, in the order given: the call for the
  \<open>k\<close>-th identifier is made on the workspace the call before it left, whatever that
  call did, and leaves in the trace its announcement, the call, and the report line of its
  own outcome (success when it returned, the error with the message of the exception when
  it raised). An exception therefore never stops the calls that follow; the function
  returns normally, so the exit status is unaffected.
\<close>

theorem refresh_pipelines_each_in_order:
  assumes "sdk p = Installed client"
  shows "fst (refresh_pipelines p ids s) = Inr () \<and>
         exit_status (fst (refresh_pipelines p ids s)) = 0 \<and>
         (\<exists>ws rs. length ws = Suc (length ids) \<and> length rs = length ids \<and> ws ! 0 = world s \<and>
            (\<forall>k < length ids. start_update client (ids ! k) (ws ! k) = (rs ! k, ws ! Suc k)) \<and>
            world (snd (refresh_pipelines p ids s)) = ws ! length ids \<and>
            trace (snd (refresh_pipelines p ids s)) =
              trace s @ concat (map (\<lambda>(i, r). refresh_events i r) (zip ids rs))) \<and>
         filter is_start_update (trace (snd (refresh_pipelines p ids s))) =
           filter is_start_update (trace s) @ map StartUpdate ids"
proof -
  note r = refresh_pipelines_installed[OF assms]
  from refresh_loop_run[of ids s client] obtain ws rs where
    h: "length ws = Suc (length ids)" "length rs = length ids" "ws ! 0 = world s"
       "\<forall>k < length ids. start_update client (ids ! k) (ws ! k) = (rs ! k, ws ! Suc k)"
       "world (refresh_loop client ids s) = ws ! length ids"
       "trace (refresh_loop client ids s) =
          trace s @ concat (map (\<lambda>(i, r). refresh_events i r) (zip ids rs))"
    by blast
  have f: "filter is_start_update (trace (refresh_loop client ids s)) =
           filter is_start_update (trace s) @ map StartUpdate ids"
    by (simp add: h(6) refresh_events_calls[OF h(2)])
  have "\<exists>ws rs. length ws = Suc (length ids) \<and> length rs = length ids \<and> ws ! 0 = world s \<and>
            (\<forall>k < length ids. start_update client (ids ! k) (ws ! k) = (rs ! k, ws ! Suc k)) \<and>
            world (refresh_loop client ids s) = ws ! length ids \<and>
            trace (refresh_loop client ids s) =
              trace s @ concat (map (\<lambda>(i, r). refresh_events i r) (zip ids rs))"
    using h by blast
  with f show ?thesis by (simp add: r)
qed

theorem refresh_pipelines_each_in_order_witness:
  "start_update demo_client ''p1'' 0 = (Inl (SdkError ''no such pipeline''), 1) \<and>
   start_update demo_client ''p2'' 1 = (Inr (), 2) \<and>
   fst (refresh_pipelines (demo []) [''p1'', ''p2''] start) = Inr () \<and>
   world (snd (refresh_pipelines (demo []) [''p1'', ''p2''] start)) = 2 \<and>
   trace (snd (refresh_pipelines (demo []) [''p1'', ''p2''] start)) =
     [Print ''Starting refresh for pipeline: p1'', StartUpdate ''p1'',
      Print (report_error (SdkError ''no such pipeline'')),
      Print ''Starting refresh for pipeline: p2'', StartUpdate ''p2'',
      Print report_ok]"
proof -
  let ?R = "refresh_pipelines (demo []) [''p1'', ''p2''] start"
  from refresh_pipelines_each_in_order[OF demo_simps(2), of "[]" "[''p1'', ''p2'']" start]
  obtain ws rs where
    f: "fst ?R = Inr ()"
    and l: "length rs = length [''p1'', ''p2'']"
    and w0: "ws ! 0 = world start"
    and st: "\<forall>k < length [''p1'', ''p2''].
               start_update demo_client ([''p1'', ''p2''] ! k) (ws ! k) = (rs ! k, ws ! Suc k)"
    and wf: "world (snd ?R) = ws ! length [''p1'', ''p2'']"
    and tr: "trace (snd ?R) =
               trace start @ concat (map (\<lambda>(i, r). refresh_events i r) (zip [''p1'', ''p2''] rs))"
    by blast
  from st[rule_format, of 0]
  have "start_update demo_client ([''p1'', ''p2''] ! 0) (ws ! 0) = (rs ! 0, ws ! Suc 0)"
    by simp
  with w0 have k0: "rs ! 0 = Inl (SdkError ''no such pipeline'')" "ws ! Suc 0 = Suc 0"
    by (simp_all add: demo_start_update start_def)
  from st[rule_format, of "Suc 0"]
  have "start_update demo_client ([''p1'', ''p2''] ! Suc 0) (ws ! Suc 0)
                  = (rs ! Suc 0, ws ! Suc (Suc 0))"
    by simp
  with k0 have k1: "rs ! Suc 0 = Inr ()" "ws ! Suc (Suc 0) = Suc (Suc 0)"
    by (simp_all add: demo_start_update)
  from l obtain a b where rs: "rs = [a, b]"
    by (cases rs; cases "tl rs") auto
  with k0 k1 have rs': "rs = [Inl (SdkError ''no such pipeline''), Inr ()]" by simp
  have 1: "world (snd ?R) = 2" using wf k1 by (simp add: numeral_2_eq_2)
  have 2: "trace (snd ?R) =
     [Print ''Starting refresh for pipeline: p1'', StartUpdate ''p1'',
      Print (report_error (SdkError ''no such pipeline'')),
      Print ''Starting refresh for pipeline: p2'', StartUpdate ''p2'',
      Print report_ok]"
    unfolding tr rs' by (simp add: refresh_events_def start_def)
  from f 1 2 show ?thesis by (simp add: demo_start_update)
qed

text \<open>
  Claim C5. In \<^verbatim>\<open>--refresh\<close> mode, with the client available, \<^verbatim>\<open>main\<close> runs
  discovery on each view in order and collects exactly the identifiers that were found, in
  that order. When there is at least one it prints an empty line, refreshes the whole batch
  and exits with status 0; when there is none it prints \<^verbatim>\<open>No pipelines found to refresh.\<close>
  and exits with status 1.
\<close>

theorem main_refresh_batch:
  assumes "sdk p = Installed client" and "views \<noteq> []"
  shows "length (fst (discover_results p views s)) = length views \<and>
         (resolved (fst (discover_results p views s)) \<noteq> [] \<longrightarrow>
            main p (prog # ''--refresh'' # views) s =
              (Inr (), refresh_loop client (resolved (fst (discover_results p views s)))
                         (print [] (snd (discover_results p views s)))) \<and>
            exit_status (fst (main p (prog # ''--refresh'' # views) s)) = 0) \<and>
         (resolved (fst (discover_results p views s)) = [] \<longrightarrow>
            main p (prog # ''--refresh'' # views) s =
              (Inl (SystemExit 1),
               print ''No pipelines found to refresh.'' (snd (discover_results p views s))) \<and>
            exit_status (fst (main p (prog # ''--refresh'' # views) s)) = 1)"
proof -
  note m = main_refresh_eq[OF assms(2), of p prog s]
  note c = collect_loop_results[OF assms(1), of views "[]" s]
  show ?thesis
  proof (cases "resolved (fst (discover_results p views s)) = []")
    case True
    with m c length_discover_results[OF assms(1), of views s] show ?thesis by simp
  next
    case False
    with m c length_discover_results[OF assms(1), of views s]
      refresh_pipelines_installed[OF assms(1)] show ?thesis by simp
  qed
qed

theorem main_refresh_batch_witness:
  "fst (discover_results (demo []) [''main.gold.nothere'', ''main.gold.mv_orders''] start)
     = [None, Some ''3f9a7b2c-1111-2222-3333-444455556666''] \<and>
   exit_status (fst (main (demo [])
     [''refresh_metric_views.py'', ''--refresh'', ''main.gold.nothere'', ''main.gold.mv_orders'']
     start)) = 0 \<and>
   filter is_start_update (trace (snd (main (demo [])
     [''refresh_metric_views.py'', ''--refresh'', ''main.gold.nothere'', ''main.gold.mv_orders'']
     start))) = [StartUpdate ''3f9a7b2c-1111-2222-3333-444455556666''] \<and>
   fst (discover_results (demo []) [''main.gold.nothere''] start) = [None] \<and>
   main (demo []) [''refresh_metric_views.py'', ''--refresh'', ''main.gold.nothere''] start
     = (Inl (SystemExit 1),
        print ''No pipelines found to refresh.''
          (snd (discover_pipeline (demo []) ''main.gold.nothere'' start)))"
proof -
  have r2: "discover_results (demo []) [''main.gold.nothere'', ''main.gold.mv_orders''] start
     = ([None, Some ''3f9a7b2c-1111-2222-3333-444455556666''],
        snd (discover_pipeline (demo []) ''main.gold.mv_orders''
              (snd (discover_pipeline (demo []) ''main.gold.nothere'' start))))"
    by (simp add: start_def demo_discover_missing demo_discover_orders)
  have r1: "discover_results (demo []) [''main.gold.nothere''] start
     = ([None], snd (discover_pipeline (demo []) ''main.gold.nothere'' start))"
    by (simp add: start_def demo_discover_missing)
  from main_refresh_batch[OF demo_simps(2), of "[''main.gold.nothere'', ''main.gold.mv_orders'']"
      "[]" start "''refresh_metric_views.py''"] r2
  have a: "main (demo [])
     [''refresh_metric_views.py'', ''--refresh'', ''main.gold.nothere'', ''main.gold.mv_orders'']
     start = (Inr (), refresh_loop demo_client [''3f9a7b2c-1111-2222-3333-444455556666'']
        (print [] (snd (discover_pipeline (demo []) ''main.gold.mv_orders''
              (snd (discover_pipeline (demo []) ''main.gold.nothere'' start))))))"
    by simp
  from main_refresh_batch[OF demo_simps(2), of "[''main.gold.nothere'']"
      "[]" start "''refresh_metric_views.py''"] r1
  have b: "main (demo []) [''refresh_metric_views.py'', ''--refresh'', ''main.gold.nothere''] start
     = (Inl (SystemExit 1),
        print ''No pipelines found to refresh.''
          (snd (discover_pipeline (demo []) ''main.gold.nothere'' start)))"
    by simp
  have c: "filter is_start_update (trace (refresh_loop demo_client [''3f9a7b2c-1111-2222-3333-444455556666'']
        (print [] (snd (discover_pipeline (demo []) ''main.gold.mv_orders''
              (snd (discover_pipeline (demo []) ''main.gold.nothere'' start)))))))
      = [StartUpdate ''3f9a7b2c-1111-2222-3333-444455556666'']"
    by (simp add: start_def demo_discover_missing demo_discover_orders print_def emit_def
          demo_client_def)
  show ?thesis by (simp only: a b c r1 r2 fst_conv snd_conv exit_status.simps simp_thms)
qed

text \<open>
  Claim C8. With no argument \<^verbatim>\<open>main\<close> prints the usage text, that is the module
  docstring and then the nine lines of examples, all written out below, and exits with
  status 1.
  With \<^verbatim>\<open>--discover\<close> or \<^verbatim>\<open>--refresh\<close> and nothing after it, \<^verbatim>\<open>main\<close> prints one
  error line and exits with status 1; no SDK call is made and the workspace is untouched,
  so there is no discovery and no refresh.
\<close>

theorem main_usage_and_missing_value:
  "(length argv < 2 \<longrightarrow>
      fst (main p argv s) = Inl (SystemExit 1) \<and>
      exit_status (fst (main p argv s)) = 1 \<and>
      world (snd (main p argv s)) = world s \<and>
      trace (snd (main p argv s)) = trace s @
          [Print ([CHR 0x0A] @ concat (map (\<lambda>l. l @ [CHR 0x0A])
              [''Manually refresh metric view materializations.'',
               [],
               ''This script triggers a refresh of the underlying Lakeflow Spark Declarative Pipelines'',
               ''for metric views with materialization.'',
               [],
               ''Usage:'',
               ''    # Discover pipeline IDs for metric views'',
               ''    uv run --env-file .env python scripts/refresh_metric_views.py --discover <catalog>.<schema>.mv_order_metrics'',
               ''    '',
               ''    # Refresh specific pipelines by ID'',
               ''    uv run --env-file .env python scripts/refresh_metric_views.py <pipeline_id_1> <pipeline_id_2>'',
               ''    '',
               ''    # Discover and refresh in one go'',
               ''    uv run --env-file .env python scripts/refresh_metric_views.py --refresh <catalog>.<schema>.mv_order_metrics'',
               [],
               ''Environment:'',
               ''    Set DATABRICKS_HOST and DATABRICKS_TOKEN in .env file, or use Databricks CLI profile.'',
               [],
               ''See: https://docs.databricks.com/aws/en/metric-views/materialization#manual-refresh''])),
           Print ([CHR 0x0A] @ ''Examples:''),
           Print ''  # Discover pipeline ID'',
           Print ''  uv run --env-file .env python scripts/refresh_metric_views.py --discover <catalog>.<schema>.mv_order_metrics'',
           Print [],
           Print ''  # Refresh by pipeline ID'',
           Print ''  uv run --env-file .env python scripts/refresh_metric_views.py 01484540-0a06-414a-b10f-e1b0e8097f15'',
           Print [],
           Print ''  # Discover and refresh in one go'',
           Print ''  uv run --env-file .env python scripts/refresh_metric_views.py --refresh <catalog>.<schema>.mv_order_metrics'']) \<and>
   main p [prog, ''--discover''] s =
     (Inl (SystemExit 1), print ''Error: --discover requires a metric view name'' s) \<and>
   main p [prog, ''--refresh''] s =
     (Inl (SystemExit 1), print ''Error: --refresh requires metric view name(s)'' s) \<and>
   (flag = ''--discover'' \<or> flag = ''--refresh'' \<longrightarrow>
      exit_status (fst (main p [prog, flag] s)) = 1 \<and>
      world (snd (main p [prog, flag] s)) = world s \<and>
      length (trace (snd (main p [prog, flag] s))) = Suc (length (trace s)) \<and>
      filter is_remote_call (trace (snd (main p [prog, flag] s))) =
        filter is_remote_call (trace s))"
proof -
  have d: "main p [prog, ''--discover''] s =
     (Inl (SystemExit 1), print ''Error: --discover requires a metric view name'' s)"
    by (simp add: main_def)
  have r: "main p [prog, ''--refresh''] s =
     (Inl (SystemExit 1), print ''Error: --refresh requires metric view name(s)'' s)"
    by (simp add: main_def)
  have u: "main p argv s = (Inl (SystemExit 1), fold print usage s)" if "length argv < 2"
    using that by (simp add: main_def)
  have v: "map Print usage =
          [Print ([CHR 0x0A] @ concat (map (\<lambda>l. l @ [CHR 0x0A])
              [''Manually refresh metric view materializations.'',
               [],
               ''This script triggers a refresh of the underlying Lakeflow Spark Declarative Pipelines'',
               ''for metric views with materialization.'',
               [],
               ''Usage:'',
               ''    # Discover pipeline IDs for metric views'',
               ''    uv run --env-file .env python scripts/refresh_metric_views.py --discover <catalog>.<schema>.mv_order_metrics'',
               ''    '',
               ''    # Refresh specific pipelines by ID'',
               ''    uv run --env-file .env python scripts/refresh_metric_views.py <pipeline_id_1> <pipeline_id_2>'',
               ''    '',
               ''    # Discover and refresh in one go'',
               ''    uv run --env-file .env python scripts/refresh_metric_views.py --refresh <catalog>.<schema>.mv_order_metrics'',
               [],
               ''Environment:'',
               ''    Set DATABRICKS_HOST and DATABRICKS_TOKEN in .env file, or use Databricks CLI profile.'',
               [],
               ''See: https://docs.databricks.com/aws/en/metric-views/materialization#manual-refresh''])),
           Print ([CHR 0x0A] @ ''Examples:''),
           Print ''  # Discover pipeline ID'',
           Print ''  uv run --env-file .env python scripts/refresh_metric_views.py --discover <catalog>.<schema>.mv_order_metrics'',
           Print [],
           Print ''  # Refresh by pipeline ID'',
           Print ''  uv run --env-file .env python scripts/refresh_metric_views.py 01484540-0a06-414a-b10f-e1b0e8097f15'',
           Print [],
           Print ''  # Discover and refresh in one go'',
           Print ''  uv run --env-file .env python scripts/refresh_metric_views.py --refresh <catalog>.<schema>.mv_order_metrics'']"
    unfolding usage_def doc_def doc_lines_def nl_def list.map by (rule refl)
  show ?thesis
  proof (intro conjI impI)
    assume "flag = ''--discover'' \<or> flag = ''--refresh''"
    then consider "flag = ''--discover''" | "flag = ''--refresh''" by blast
    then have e: "\<exists>line. main p [prog, flag] s = (Inl (SystemExit 1), print line s)"
      using d r by cases blast+
    then obtain line where l: "main p [prog, flag] s = (Inl (SystemExit 1), print line s)" by blast
    show "exit_status (fst (main p [prog, flag] s)) = 1" by (simp add: l)
    show "world (snd (main p [prog, flag] s)) = world s" by (simp add: l world_print)
    show "length (trace (snd (main p [prog, flag] s))) = Suc (length (trace s))"
      by (simp add: l trace_print)
    show "filter is_remote_call (trace (snd (main p [prog, flag] s))) =
        filter is_remote_call (trace s)" by (simp add: l trace_print)
  next
    assume a: "length argv < 2"
    show "trace (snd (main p argv s)) = trace s @
          [Print ([CHR 0x0A] @ concat (map (\<lambda>l. l @ [CHR 0x0A])
              [''Manually refresh metric view materializations.'',
               [],
               ''This script triggers a refresh of the underlying Lakeflow Spark Declarative Pipelines'',
               ''for metric views with materialization.'',
               [],
               ''Usage:'',
               ''    # Discover pipeline IDs for metric views'',
               ''    uv run --env-file .env python scripts/refresh_metric_views.py --discover <catalog>.<schema>.mv_order_metrics'',
               ''    '',
               ''    # Refresh specific pipelines by ID'',
               ''    uv run --env-file .env python scripts/refresh_metric_views.py <pipeline_id_1> <pipeline_id_2>'',
               ''    '',
               ''    # Discover and refresh in one go'',
               ''    uv run --env-file .env python scripts/refresh_metric_views.py --refresh <catalog>.<schema>.mv_order_metrics'',
               [],
               ''Environment:'',
               ''    Set DATABRICKS_HOST and DATABRICKS_TOKEN in .env file, or use Databricks CLI profile.'',
               [],
               ''See: https://docs.databricks.com/aws/en/metric-views/materialization#manual-refresh''])),
           Print ([CHR 0x0A] @ ''Examples:''),
           Print ''  # Discover pipeline ID'',
           Print ''  uv run --env-file .env python scripts/refresh_metric_views.py --discover <catalog>.<schema>.mv_order_metrics'',
           Print [],
           Print ''  # Refresh by pipeline ID'',
           Print ''  uv run --env-file .env python scripts/refresh_metric_views.py 01484540-0a06-414a-b10f-e1b0e8097f15'',
           Print [],
           Print ''  # Discover and refresh in one go'',
           Print ''  uv run --env-file .env python scripts/refresh_metric_views.py --refresh <catalog>.<schema>.mv_order_metrics'']"
      by (simp only: u[OF a] snd_conv trace_fold_print v)
  qed (simp_all add: d r u world_fold_print)
qed

theorem main_usage_and_missing_value_witness:
  "exit_status (fst (main (demo []) [''refresh_metric_views.py''] start)) = 1 \<and>
   length (trace (snd (main (demo []) [''refresh_metric_views.py''] start))) = 10 \<and>
   take 48 (case hd (trace (snd (main (demo []) [''refresh_metric_views.py''] start))) of
              Print l \<Rightarrow> l | _ \<Rightarrow> [])
     = [CHR 0x0A] @ ''Manually refresh metric view materializations.'' @ [CHR 0x0A] \<and>
   trace (snd (main (demo []) [''refresh_metric_views.py''] start)) ! 1
     = Print ([CHR 0x0A] @ ''Examples:'') \<and>
   last (trace (snd (main (demo []) [''refresh_metric_views.py''] start)))
     = Print ''  uv run --env-file .env python scripts/refresh_metric_views.py --refresh <catalog>.<schema>.mv_order_metrics'' \<and>
   exit_status (fst (main (demo []) [''refresh_metric_views.py'', ''--refresh''] start)) = 1 \<and>
   trace (snd (main (demo []) [''refresh_metric_views.py'', ''--refresh''] start))
     = [Print ''Error: --refresh requires metric view name(s)'']"
  using main_usage_and_missing_value[of "[''refresh_metric_views.py'']" "demo []" start
      "''refresh_metric_views.py''" "''--refresh''"]
  by (simp add: start_def trace_print)

end
